theory Spec2Isabelle
  imports Main
begin

section \<open>C++ types seen by the container\<close>

text \<open>
  \<^verbatim>\<open>AnyMovable.h\<close> is a class template: which class \<^verbatim>\<open>CObjectStored<T>\<close> is
  instantiated is decided by computations on types. Object types are a datatype; a
  reference can only sit at the top of a type (C++ has no reference to a reference), so
  references are a second layer.
\<close>

datatype obj_type =
    Named string
  | Const obj_type
  | Pointer obj_type
  | Array obj_type nat

datatype cpp_type =
    Obj obj_type
  | LRef obj_type
  | RRef obj_type

datatype value_category = Lvalue | Rvalue

text \<open>\<^verbatim>\<open>std::remove_reference_t<T>\<close>: strips a reference, and nothing else.\<close>

fun remove_reference_t :: "cpp_type \<Rightarrow> obj_type" where
  "remove_reference_t (Obj t) = t"
| "remove_reference_t (LRef t) = t"
| "remove_reference_t (RRef t) = t"

text \<open>
  Lines 103-104:
  \<^verbatim>\<open>template<class T> using CObjType = std::remove_reference_t<T>;\<close>
\<close>

definition CObjType :: "cpp_type \<Rightarrow> obj_type" where
  "CObjType T = remove_reference_t T"

text \<open>
  The value constructor (line 108) is \<^verbatim>\<open>template<class T> CAnyMovable(T&& Object)\<close>, a
  forwarding reference: for an lvalue argument of type \<open>U\<close> the parameter \<open>T\<close> is deduced
  as \<open>U&\<close>, for an rvalue argument as \<open>U\<close>. The type of an expression is never a
  reference, and keeps its const qualification.
\<close>

fun deduce_forwarding :: "obj_type \<Rightarrow> value_category \<Rightarrow> cpp_type" where
  "deduce_forwarding U Lvalue = LRef U"
| "deduce_forwarding U Rvalue = Obj U"

text \<open>
  Line 110: the value constructor allocates a \<^verbatim>\<open>CObjectStored<CObjType<T>>\<close>. This is
  the stored type, as a function of the argument's type and value category.
\<close>

definition value_ctor_stored_type :: "obj_type \<Rightarrow> value_category \<Rightarrow> obj_type" where
  "value_ctor_stored_type U c = CObjType (deduce_forwarding U c)"

text \<open>
  The specification speaks of the "decayed, reference-stripped type". That is
  \<^verbatim>\<open>std::decay_t\<close>: strip the reference, then turn an array into a pointer to its
  element, and otherwise drop the top-level const. (Function types, the third case of
  \<^verbatim>\<open>std::decay\<close>, are not object types and cannot be stored.) This definition follows
  the specification; the source never mentions \<^verbatim>\<open>decay\<close>.
\<close>

fun remove_cv_t :: "obj_type \<Rightarrow> obj_type" where
  "remove_cv_t (Const t) = remove_cv_t t"
| "remove_cv_t t = t"

fun spec_decay_t :: "cpp_type \<Rightarrow> obj_type" where
  "spec_decay_t T =
     (case remove_reference_t T of
        Array E n \<Rightarrow> Pointer E
      | U \<Rightarrow> remove_cv_t U)"

fun is_const :: "obj_type \<Rightarrow> bool" where
  "is_const (Const t) = True"
| "is_const t = False"

text \<open>
  One C++ type can be written in several ways: \<^verbatim>\<open>const\<close> applied twice is \<^verbatim>\<open>const\<close>, and
  \<^verbatim>\<open>const\<close> applied to an array type (through an alias or a template argument) is the
  array of \<^verbatim>\<open>const\<close> elements. Where the header's behaviour depends on what a type is
  (which specialisation of \<^verbatim>\<open>CObjectKeeper\<close> is chosen, whether an argument has the stored
  type), types are compared in one canonical form: \<^verbatim>\<open>const\<close> stands at most once, and
  never on an array.
\<close>

fun add_const :: "obj_type \<Rightarrow> obj_type" where
  "add_const (Const t) = Const t"
| "add_const (Array E n) = Array (add_const E) n"
| "add_const (Named s) = Const (Named s)"
| "add_const (Pointer t) = Const (Pointer t)"

fun canon :: "obj_type \<Rightarrow> obj_type" where
  "canon (Named s) = Named s"
| "canon (Const t) = add_const (canon t)"
| "canon (Pointer t) = Pointer (canon t)"
| "canon (Array E n) = Array (canon E) n"

fun is_array :: "obj_type \<Rightarrow> bool" where
  "is_array (Array E n) = True"
| "is_array t = False"


section \<open>Values, expressions and the consumer's two families\<close>

text \<open>
  The value of a stored object: an atom of some base type, or the elements of a
  fixed-size array \<^verbatim>\<open>T[Tsize]\<close>.
\<close>

datatype 'b val = Atom 'b | Elems "'b val list"

text \<open>An argument expression: its type, its value category and the value it denotes.\<close>

record 'b expr =
  ty :: obj_type
  cat :: value_category
  val :: "'b val"

datatype exn = Exception string

text \<open>
  The container is generic in the stored class and in the two template template
  parameters \<^verbatim>\<open>TInterface\<close> and \<^verbatim>\<open>TImplementation\<close> (lines 98-99). None of them is
  code of the header, so they are parameters of the model:
  \<^item> \<open>T_ctor U T args\<close> is the constructor of \<open>T\<close> that overload resolution selects for
    the argument list \<open>args\<close> (for a single argument of type \<open>T\<close>, its copy or move
    constructor): it throws (\<open>Inl\<close>) or yields the value of the new object;
  \<^item> \<open>TImplementation U T m\<close> is the override of the interface method \<open>m\<close> in
    \<^verbatim>\<open>TImplementation<CObjectKeeper<T>, T>\<close>, acting on the value that
    \<^verbatim>\<open>CBase::Object()\<close> exposes: it returns a result and the value it leaves behind;
  \<^item> \<open>const_method U m\<close> tells whether \<open>m\<close> is declared \<^verbatim>\<open>const\<close> in the interface.

  \<open>T_ctor\<close> is asked only about argument lists for which \<open>T\<close> has a constructor; a call
  for which it has none does not compile, whatever the header does.
\<close>

record ('b, 'm, 'r) consumer =
  T_ctor :: "obj_type \<Rightarrow> 'b expr list \<Rightarrow> exn + 'b val"
  TImplementation :: "obj_type \<Rightarrow> 'm \<Rightarrow> 'b val \<Rightarrow> 'r \<times> 'b val"
  const_method :: "'m \<Rightarrow> bool"

text \<open>
  \<^verbatim>\<open>std::forward<T>(x)\<close> is an lvalue when \<open>T\<close> is an lvalue reference and an rvalue
  otherwise; \<^verbatim>\<open>std::move(x)\<close> is always an rvalue.
\<close>

fun forward :: "cpp_type \<Rightarrow> 'b expr \<Rightarrow> 'b expr" where
  "forward (LRef U) x = x\<lparr>cat := Lvalue\<rparr>"
| "forward (Obj U) x = x\<lparr>cat := Rvalue\<rparr>"
| "forward (RRef U) x = x\<lparr>cat := Rvalue\<rparr>"

definition move :: "'b expr \<Rightarrow> 'b expr" where
  "move x = x\<lparr>cat := Rvalue\<rparr>"

text \<open>
  \<^verbatim>\<open>std::forward<TArgs>(args)...\<close> for a pack \<^verbatim>\<open>TArgs&&... args\<close>: every argument is
  forwarded with the type deduced for it.
\<close>

definition forward_pack :: "'b expr list \<Rightarrow> 'b expr list" where
  "forward_pack args = map (\<lambda>x. forward (deduce_forwarding (ty x) (cat x)) x) args"


section \<open>The heap of stored objects\<close>

type_synonym addr = nat
type_synonym cid = nat

text \<open>
  What can be observed of the stored classes from outside: an object of type \<open>T\<close> has
  been initialised, and the stored object at an address has been deleted.
\<close>

datatype event = Created obj_type | Deleted addr

text \<open>
  A \<^verbatim>\<open>CObjectStored<TObject>\<close> (lines 226-234): its dynamic type, which selects the
  overrides, and the member \<^verbatim>\<open>Object_\<close> of its \<^verbatim>\<open>CObjectKeeper\<close> base (lines 190, 222), here
  \<open>Object_m\<close>: a name cannot end in an underscore.
\<close>

record 'b CObjectStored =
  TObject :: obj_type
  Object_m :: "'b val"

text \<open>Lines 181-187 and 207-213: both \<^verbatim>\<open>Object()\<close> accessors return \<^verbatim>\<open>Object_\<close>.\<close>

definition Object :: "'b CObjectStored \<Rightarrow> 'b val" where
  "Object k = Object_m k"

text \<open>Line 246: the only data member, \<^verbatim>\<open>CStoredPtr pIObject_\<close>, here \<open>pIObject_m\<close>;
  \<open>None\<close> is the null pointer.\<close>

record CAnyMovable =
  pIObject_m :: "addr option"

text \<open>
  The world: the free store with the live stored objects, the next address the allocator
  hands out, the trace of events, and the containers of the program with the set of those
  whose lifetime has begun and not ended.
\<close>

record 'b world =
  heap :: "addr \<rightharpoonup> 'b CObjectStored"
  next_addr :: addr
  trace :: "event list"
  containers :: "cid \<Rightarrow> CAnyMovable"
  alive :: "cid set"

definition init_world :: "'b world" where
  "init_world =
     \<lparr>heap = Map.empty, next_addr = 0, trace = [],
      containers = (\<lambda>c. \<lparr>pIObject_m = None\<rparr>), alive = {}\<rparr>"

text \<open>
  How an operation ends: it returns, it throws (the exception propagates to the caller,
  who goes on in the state left behind), \<^verbatim>\<open>std::terminate\<close> is called because an
  exception met a \<^verbatim>\<open>noexcept\<close>, the call does not compile, or the behaviour is undefined.
\<close>

datatype ('x, 's) outcome =
    Returned 'x 's
  | Threw exn 's
  | Terminated
  | Ill_formed
  | Undefined

fun on_return :: "('x, 's) outcome \<Rightarrow> ('x \<Rightarrow> 's \<Rightarrow> ('y, 's) outcome) \<Rightarrow> ('y, 's) outcome" where
  "on_return (Returned x s) f = f x s"
| "on_return (Threw e s) f = Threw e s"
| "on_return Terminated f = Terminated"
| "on_return Ill_formed f = Ill_formed"
| "on_return Undefined f = Undefined"

fun returned :: "('x, 's) outcome \<Rightarrow> 'x option" where
  "returned (Returned x s) = Some x"
| "returned r = None"

fun state_after :: "('x, 's) outcome \<Rightarrow> 's option" where
  "state_after (Returned x s) = Some s"
| "state_after (Threw e s) = Some s"
| "state_after r = None"


section \<open>\<^verbatim>\<open>CObjectKeeper\<close> and \<^verbatim>\<open>CObjectStored\<close>: building the stored object\<close>

text \<open>
  The result of running a constructor of \<^verbatim>\<open>CObjectStored<T>\<close>: the value of \<^verbatim>\<open>Object_\<close>
  with the objects initialised on the way, an exception, a call of \<^verbatim>\<open>std::terminate\<close>,
  or no viable constructor.
\<close>

datatype 'b construction =
    Built "'b val" "event list"
  | Ctor_threw exn
  | Ctor_terminated
  | Ctor_ill_formed

text \<open>
  Lines 171-173:
  \<^verbatim>\<open>CObjectKeeper(TObject&& Object) noexcept : Object_(std::move(Object)) {}\<close>
  One constructor call of \<open>T\<close>, on an rvalue of type \<open>T\<close>. The constructor is \<^verbatim>\<open>noexcept\<close>:
  an exception of \<open>T\<close>'s constructor ends the program.
\<close>

definition CObjectKeeper_move ::
  "('b, 'm, 'r) consumer \<Rightarrow> obj_type \<Rightarrow> 'b expr \<Rightarrow> 'b construction" where
  "CObjectKeeper_move U T Object' =
     (case T_ctor U T [move Object'] of
        Inl e \<Rightarrow> Ctor_terminated
      | Inr v \<Rightarrow> Built v [Created T])"

text \<open>
  Lines 177-178:
  \<^verbatim>\<open>template<class... TArgs> CObjectKeeper(TArgs&& ... args) : Object_(std::forward<TArgs>(args)...) {}\<close>
  One constructor call of \<open>T\<close>, on the forwarded arguments; an exception propagates.
\<close>

definition CObjectKeeper_args ::
  "('b, 'm, 'r) consumer \<Rightarrow> obj_type \<Rightarrow> 'b expr list \<Rightarrow> 'b construction" where
  "CObjectKeeper_args U T args =
     (case T_ctor U T (forward_pack args) of
        Inl e \<Rightarrow> Ctor_threw e
      | Inr v \<Rightarrow> Built v [Created T])"

text \<open>
  Lines 194-223, the specialisation \<^verbatim>\<open>CObjectKeeper<T[Tsize]>\<close>.
  \<^verbatim>\<open>std::make_integer_sequence<size_t, Tsize>\<close> is the index pack \<open>0, ..., Tsize - 1\<close>.
\<close>

definition make_integer_sequence :: "nat \<Rightarrow> nat list" where
  "make_integer_sequence Tsize = [0..<Tsize]"

text \<open>
  Lines 216-220, the pack expansion \<^verbatim>\<open>Object_ { std::move(Object[TIndex])... }\<close>: the
  elements of \<^verbatim>\<open>Object_\<close> are initialised in the order of the pack, element \<open>k\<close> of
  \<^verbatim>\<open>Object_\<close> from the rvalue \<^verbatim>\<open>Object[i]\<close> for the \<open>k\<close>-th index \<open>i\<close> of the pack, each by a
  constructor call of the element type. \<open>None\<close>: an element's constructor threw. An index
  outside the source array does not occur (the caller checks the length); it is treated as
  a failure too.
\<close>

fun move_elements ::
  "('b, 'm, 'r) consumer \<Rightarrow> obj_type \<Rightarrow> 'b val list \<Rightarrow> nat list \<Rightarrow> 'b val list option" where
  "move_elements U E Object' [] = Some []"
| "move_elements U E Object' (i # TIndex) =
     (if i < length Object' then
        (case T_ctor U E [move \<lparr>ty = E, cat = Lvalue, val = Object' ! i\<rparr>] of
           Inl e \<Rightarrow> None
         | Inr v \<Rightarrow>
             (case move_elements U E Object' TIndex of
                None \<Rightarrow> None
              | Some vs \<Rightarrow> Some (v # vs)))
      else None)"

text \<open>
  Lines 216-220, the private constructor, which is \<^verbatim>\<open>noexcept\<close>. An array object has no
  constructor of its own: its elements are created, and with them the array (of the
  type \<open>T\<close> the keeper was instantiated with). When the element type \<open>E\<close> is itself an
  array, the initialiser \<^verbatim>\<open>std::move(Object[TIndex])\<close> would initialise an array from an
  array, which C++ does not allow: the constructor does not compile.
\<close>

definition CObjectKeeper_array_indexed ::
  "('b, 'm, 'r) consumer \<Rightarrow> obj_type \<Rightarrow> obj_type \<Rightarrow> nat \<Rightarrow> 'b val list \<Rightarrow> nat list
     \<Rightarrow> 'b construction" where
  "CObjectKeeper_array_indexed U T E Tsize Object' TIndex =
     (if is_array E then Ctor_ill_formed
      else (case move_elements U E Object' TIndex of
              None \<Rightarrow> Ctor_terminated
            | Some vs \<Rightarrow> Built (Elems vs) (map (\<lambda>i. Created E) TIndex @ [Created T])))"

text \<open>
  Lines 200-202:
  \<^verbatim>\<open>CObjectKeeper(CObjectType&& Object) noexcept
    : CObjectKeeper(std::move(Object), std::make_integer_sequence<size_t, Tsize>{}) {}\<close>
  The parameter has type \<^verbatim>\<open>T(&&)[Tsize]\<close>, so the argument denotes an array of exactly
  \<open>Tsize\<close> elements; an expression whose value is anything else is not of that type.
\<close>

definition CObjectKeeper_array ::
  "('b, 'm, 'r) consumer \<Rightarrow> obj_type \<Rightarrow> obj_type \<Rightarrow> nat \<Rightarrow> 'b expr \<Rightarrow> 'b construction" where
  "CObjectKeeper_array U T E Tsize Object' =
     (case val Object' of
        Elems xs \<Rightarrow>
          if length xs = Tsize
          then CObjectKeeper_array_indexed U T E Tsize xs (make_integer_sequence Tsize)
          else Ctor_ill_formed
      | Atom b \<Rightarrow> Ctor_ill_formed)"

text \<open>
  Lines 226-234: \<^verbatim>\<open>CObjectStored<TObject>\<close> inherits the constructors of
  \<^verbatim>\<open>TImplementation<CObjectKeeper<TObject>, TObject>\<close>, which (line 51 of the usage notes)
  inherits those of \<^verbatim>\<open>CObjectKeeper<TObject>\<close>. So constructing a stored object is
  overload resolution among the keeper's constructors.

  For a class type, one rvalue argument of type \<open>TObject\<close> itself matches the constructor
  of lines 171-173 and the variadic template of lines 177-178 equally well, and the
  non-template one wins; for every other argument list the template is the better or the
  only match.
\<close>

fun keeper_move_arg :: "obj_type \<Rightarrow> 'b expr list \<Rightarrow> 'b expr option" where
  "keeper_move_arg T [x] = (if canon (ty x) = canon T \<and> cat x = Rvalue then Some x else None)"
| "keeper_move_arg T args = None"

text \<open>
  For an array type only \<^verbatim>\<open>CObjectKeeper(CObjectType&& Object)\<close> (lines 200-202) exists. Its
  parameter binds to one rvalue argument whose type is the array type or the same array
  with elements that are not yet \<^verbatim>\<open>const\<close>; no other argument list compiles.
\<close>

fun keeper_array_arg :: "obj_type \<Rightarrow> 'b expr list \<Rightarrow> 'b expr option" where
  "keeper_array_arg T [x] =
     (if cat x = Rvalue \<and> (canon (ty x) = canon T \<or> canon (Const (ty x)) = canon T)
      then Some x else None)"
| "keeper_array_arg T args = None"

text \<open>
  The specialisation of lines 194-223 is chosen when \<open>TObject\<close> is an array type
  \<^verbatim>\<open>T[Tsize]\<close>, however it is written; an array type has at least one element.
\<close>

definition CObjectStored_ctor ::
  "('b, 'm, 'r) consumer \<Rightarrow> obj_type \<Rightarrow> 'b expr list \<Rightarrow> 'b construction" where
  "CObjectStored_ctor U TObject' args =
     (case canon TObject' of
        Array E Tsize \<Rightarrow>
          (if Tsize = 0 then Ctor_ill_formed
           else (case keeper_array_arg TObject' args of
                   Some x \<Rightarrow> CObjectKeeper_array U TObject' E Tsize x
                 | None \<Rightarrow> Ctor_ill_formed))
      | _ \<Rightarrow>
          (case keeper_move_arg TObject' args of
             Some x \<Rightarrow> CObjectKeeper_move U TObject' x
           | None \<Rightarrow> CObjectKeeper_args U TObject' args))"


section \<open>\<^verbatim>\<open>std::unique_ptr\<close>, as the member of a container\<close>

text \<open>
  The operations of \<^verbatim>\<open>std::unique_ptr<IObjectStored>\<close> that the header uses, acting on the
  member \<^verbatim>\<open>pIObject_\<close> of the container \<open>this\<close>. Containers are addressed by name, so
  that an operation on two containers sees whether they are the same object.
\<close>

definition pIObject :: "'b world \<Rightarrow> cid \<Rightarrow> addr option" where
  "pIObject w this = pIObject_m (containers w this)"

definition set_pIObject :: "cid \<Rightarrow> addr option \<Rightarrow> 'b world \<Rightarrow> 'b world" where
  "set_pIObject this p w =
     w\<lparr>containers := (containers w)(this := (containers w this)\<lparr>pIObject_m := p\<rparr>)\<rparr>"

text \<open>\<^verbatim>\<open>get()\<close> returns the stored pointer, \<^verbatim>\<open>operator bool()\<close> is \<^verbatim>\<open>get() != nullptr\<close>.\<close>

definition unique_ptr_get :: "addr option \<Rightarrow> addr option" where
  "unique_ptr_get p = p"

definition unique_ptr_bool :: "addr option \<Rightarrow> bool" where
  "unique_ptr_bool p = (unique_ptr_get p \<noteq> None)"

text \<open>
  The default deleter: \<^verbatim>\<open>delete p\<close> runs the virtual destructor (line 160) and frees the
  object.
\<close>

definition delete_stored :: "addr \<Rightarrow> 'b world \<Rightarrow> 'b world" where
  "delete_stored a w = w\<lparr>heap := (heap w)(a := None), trace := trace w @ [Deleted a]\<rparr>"

text \<open>\<^verbatim>\<open>release()\<close>: returns the pointer and leaves the \<^verbatim>\<open>unique_ptr\<close> null; deletes nothing.\<close>

definition unique_ptr_release :: "cid \<Rightarrow> 'b world \<Rightarrow> addr option \<times> 'b world" where
  "unique_ptr_release this w = (pIObject w this, set_pIObject this None w)"

text \<open>
  \<^verbatim>\<open>reset(p)\<close>: stores \<open>p\<close>, and then deletes the object that was held before, if there was
  one.
\<close>

definition unique_ptr_reset :: "cid \<Rightarrow> addr option \<Rightarrow> 'b world \<Rightarrow> 'b world" where
  "unique_ptr_reset this p w =
     (let old = pIObject w this;
          w1 = set_pIObject this p w
      in case old of None \<Rightarrow> w1 | Some a \<Rightarrow> delete_stored a w1)"

text \<open>
  \<^verbatim>\<open>std::make_unique<CObjectStored<T>>(args...)\<close>: \<^verbatim>\<open>new CObjectStored<T>(args...)\<close>,
  wrapped in a temporary \<^verbatim>\<open>unique_ptr\<close>. When the constructor throws, the memory is
  given back and nothing has changed. The free store is taken to be large enough:
  \<^verbatim>\<open>std::bad_alloc\<close> is not modelled, so the only exceptions are those of the constructors
  of the stored classes.
\<close>

definition make_unique ::
  "('b, 'm, 'r) consumer \<Rightarrow> obj_type \<Rightarrow> 'b expr list \<Rightarrow> 'b world \<Rightarrow> (addr, 'b world) outcome" where
  "make_unique U T args w =
     (case CObjectStored_ctor U T (forward_pack args) of
        Built v evs \<Rightarrow>
          Returned (next_addr w)
            (w\<lparr>heap := (heap w)(next_addr w \<mapsto> \<lparr>TObject = T, Object_m = v\<rparr>),
               next_addr := Suc (next_addr w),
               trace := trace w @ evs\<rparr>)
      | Ctor_threw e \<Rightarrow> Threw e w
      | Ctor_terminated \<Rightarrow> Terminated
      | Ctor_ill_formed \<Rightarrow> Ill_formed)"


section \<open>\<^verbatim>\<open>CAnyMovable\<close>\<close>

text \<open>Line 106: \<^verbatim>\<open>CAnyMovable() = default;\<close> The member is a null \<^verbatim>\<open>unique_ptr\<close>.\<close>

definition CAnyMovable_default :: "cid \<Rightarrow> 'b world \<Rightarrow> 'b world" where
  "CAnyMovable_default this w = set_pIObject this None w"

text \<open>
  Lines 108-111:
  \<^verbatim>\<open>template<class T> CAnyMovable(T&& Object)
    : pIObject_(std::make_unique<CObjectStored<CObjType<T>>>(std::forward<T>(Object))) {}\<close>
\<close>

definition CAnyMovable_value ::
  "('b, 'm, 'r) consumer \<Rightarrow> 'b expr \<Rightarrow> cid \<Rightarrow> 'b world \<Rightarrow> (unit, 'b world) outcome" where
  "CAnyMovable_value U Object' this w =
     (let T = deduce_forwarding (ty Object') (cat Object')
      in on_return (make_unique U (CObjType T) [forward T Object'] w)
           (\<lambda>a w1. Returned () (set_pIObject this (Some a) w1)))"

text \<open>
  Lines 113-115:
  \<^verbatim>\<open>template<class T, class... TArgs> CAnyMovable(std::in_place_type_t<T>, TArgs&& ... args)
    : pIObject_(std::make_unique<CObjectStored<T>>(std::forward<TArgs>(args)...)) {}\<close>
\<close>

definition CAnyMovable_in_place ::
  "('b, 'm, 'r) consumer \<Rightarrow> obj_type \<Rightarrow> 'b expr list \<Rightarrow> cid \<Rightarrow> 'b world
     \<Rightarrow> (unit, 'b world) outcome" where
  "CAnyMovable_in_place U T args this w =
     on_return (make_unique U T (forward_pack args) w)
       (\<lambda>a w1. Returned () (set_pIObject this (Some a) w1))"

text \<open>
  Line 120: \<^verbatim>\<open>CAnyMovable(CAnyMovable&& Other) noexcept = default;\<close> The member is
  move-constructed: it takes what \<^verbatim>\<open>Other.pIObject_.release()\<close> returns.
\<close>

definition CAnyMovable_move :: "cid \<Rightarrow> cid \<Rightarrow> 'b world \<Rightarrow> 'b world" where
  "CAnyMovable_move this Other w =
     (let (p, w1) = unique_ptr_release Other w in set_pIObject this p w1)"

text \<open>
  Line 124: \<^verbatim>\<open>CAnyMovable& operator=(CAnyMovable&& Other) noexcept = default;\<close> The member
  is move-assigned, which for \<^verbatim>\<open>unique_ptr\<close> is \<^verbatim>\<open>reset(Other.pIObject_.release())\<close>.
\<close>

definition move_assign :: "cid \<Rightarrow> cid \<Rightarrow> 'b world \<Rightarrow> 'b world" where
  "move_assign this Other w =
     (let (p, w1) = unique_ptr_release Other w in unique_ptr_reset this p w1)"

text \<open>Lines 126-128: \<^verbatim>\<open>return pIObject_.operator bool();\<close>\<close>

definition isDefined :: "cid \<Rightarrow> 'b world \<Rightarrow> bool" where
  "isDefined this w = unique_ptr_bool (pIObject w this)"

text \<open>
  A pointer to the interface, \<^verbatim>\<open>TInterface<IEmpty>*\<close>: where it points (\<open>None\<close> is
  \<^verbatim>\<open>nullptr\<close>) and whether its pointee type is const-qualified.
\<close>

record interface_ptr =
  target :: "addr option"
  pointee_const :: bool

text \<open>
  Lines 137-139: \<^verbatim>\<open>TInterface<IEmpty>* operator->() { return pIObject_.get(); }\<close>
  Lines 141-143: \<^verbatim>\<open>TInterface<IEmpty>* operator->() const { return pIObject_.get(); }\<close>
  Neither return type is a pointer to const.
\<close>

definition operator_arrow :: "cid \<Rightarrow> 'b world \<Rightarrow> interface_ptr" where
  "operator_arrow this w = \<lparr>target = unique_ptr_get (pIObject w this), pointee_const = False\<rparr>"

definition operator_arrow_const :: "cid \<Rightarrow> 'b world \<Rightarrow> interface_ptr" where
  "operator_arrow_const this w =
     \<lparr>target = unique_ptr_get (pIObject w this), pointee_const = False\<rparr>"

text \<open>
  Lines 145-148:
  \<^verbatim>\<open>pIObject_ = std::make_unique<CObjectStored<TObject>>(std::forward<TArgs>(args)...);\<close>
  The right-hand side is evaluated first; then the temporary is move-assigned to the
  member, that is \<^verbatim>\<open>pIObject_.reset(tmp.release())\<close>.
\<close>

definition emplace ::
  "('b, 'm, 'r) consumer \<Rightarrow> obj_type \<Rightarrow> 'b expr list \<Rightarrow> cid \<Rightarrow> 'b world
     \<Rightarrow> (unit, 'b world) outcome" where
  "emplace U TObject' args this w =
     on_return (make_unique U TObject' (forward_pack args) w)
       (\<lambda>a w1. Returned () (unique_ptr_reset this (Some a) w1))"

text \<open>Lines 150-152: \<^verbatim>\<open>pIObject_.reset();\<close>\<close>

definition clear :: "cid \<Rightarrow> 'b world \<Rightarrow> 'b world" where
  "clear this w = unique_ptr_reset this None w"

text \<open>
  Line 155: \<^verbatim>\<open>~CAnyMovable() = default;\<close> The destructor of the member deletes the held
  object, if there is one.
\<close>

definition CAnyMovable_dtor :: "cid \<Rightarrow> 'b world \<Rightarrow> 'b world" where
  "CAnyMovable_dtor this w =
     (case pIObject w this of None \<Rightarrow> w | Some a \<Rightarrow> delete_stored a w)"

text \<open>
  A call \<^verbatim>\<open>p->m()\<close> through an interface pointer. Dereferencing a null pointer, or a
  pointer to an object that is no longer alive, is undefined behaviour. A method that is
  not const cannot be called through a pointer to const. Otherwise the call is virtual:
  the override of the object's dynamic type runs on the value \<^verbatim>\<open>Object()\<close> exposes, and
  what it leaves there is the object's new value.
\<close>

definition invoke ::
  "('b, 'm, 'r) consumer \<Rightarrow> 'm \<Rightarrow> interface_ptr \<Rightarrow> 'b world \<Rightarrow> ('r, 'b world) outcome" where
  "invoke U m p w =
     (case target p of
        None \<Rightarrow> Undefined
      | Some a \<Rightarrow>
          (case heap w a of
             None \<Rightarrow> Undefined
           | Some k \<Rightarrow>
               if pointee_const p \<and> \<not> const_method U m then Ill_formed
               else (let (r, v) = TImplementation U (TObject k) m (Object k)
                     in Returned r (w\<lparr>heap := (heap w)(a \<mapsto> k\<lparr>Object_m := v\<rparr>)\<rparr>))))"


section \<open>Programs over containers\<close>

text \<open>
  The public entry points, as the statements of a program. A constructor begins the
  lifetime of a container that does not exist yet; every other operation acts on
  containers that exist. A program that does otherwise is not a C++ program.
\<close>

datatype ('b, 'm) op =
    DefaultCtor cid
  | ValueCtor cid "'b expr"
  | InPlaceCtor cid obj_type "'b expr list"
  | MoveCtor cid cid
  | MoveAssign cid cid
  | Emplace cid obj_type "'b expr list"
  | Clear cid
  | Call cid 'm
  | Dtor cid

definition begin_lifetime :: "cid \<Rightarrow> 'b world \<Rightarrow> 'b world" where
  "begin_lifetime c w = w\<lparr>alive := insert c (alive w)\<rparr>"

definition end_lifetime :: "cid \<Rightarrow> 'b world \<Rightarrow> 'b world" where
  "end_lifetime c w = w\<lparr>alive := alive w - {c}\<rparr>"

fun exec :: "('b, 'm, 'r) consumer \<Rightarrow> ('b, 'm) op \<Rightarrow> 'b world \<Rightarrow> (unit, 'b world) outcome" where
  "exec U (DefaultCtor c) w =
     (if c \<in> alive w then Ill_formed
      else Returned () (begin_lifetime c (CAnyMovable_default c w)))"
| "exec U (ValueCtor c x) w =
     (if c \<in> alive w then Ill_formed
      else on_return (CAnyMovable_value U x c w) (\<lambda>u w1. Returned () (begin_lifetime c w1)))"
| "exec U (InPlaceCtor c T args) w =
     (if c \<in> alive w then Ill_formed
      else on_return (CAnyMovable_in_place U T args c w)
             (\<lambda>u w1. Returned () (begin_lifetime c w1)))"
| "exec U (MoveCtor c Other) w =
     (if c \<in> alive w \<or> Other \<notin> alive w then Ill_formed
      else Returned () (begin_lifetime c (CAnyMovable_move c Other w)))"
| "exec U (MoveAssign c Other) w =
     (if c \<notin> alive w \<or> Other \<notin> alive w then Ill_formed
      else Returned () (move_assign c Other w))"
| "exec U (Emplace c T args) w =
     (if c \<notin> alive w then Ill_formed else emplace U T args c w)"
| "exec U (Clear c) w =
     (if c \<notin> alive w then Ill_formed else Returned () (clear c w))"
| "exec U (Call c m) w =
     (if c \<notin> alive w then Ill_formed
      else on_return (invoke U m (operator_arrow c w) w) (\<lambda>r w1. Returned () w1))"
| "exec U (Dtor c) w =
     (if c \<notin> alive w then Ill_formed
      else Returned () (end_lifetime c (CAnyMovable_dtor c w)))"

text \<open>
  A program runs its statements in order. An exception is caught by the caller, who goes
  on; after \<^verbatim>\<open>std::terminate\<close>, and for a program that does not compile or whose
  behaviour is undefined, there is no state to go on from.
\<close>

fun run :: "('b, 'm, 'r) consumer \<Rightarrow> ('b, 'm) op list \<Rightarrow> 'b world \<Rightarrow> 'b world option" where
  "run U [] w = Some w"
| "run U (x # xs) w =
     (case state_after (exec U x w) of
        None \<Rightarrow> None
      | Some w1 \<Rightarrow> run U xs w1)"

text \<open>
  The state of one container, read off the world: empty, or holding a live stored object
  of some type. \<open>None\<close> stands for anything else: a member that points at no live object.
\<close>

datatype cstate = Empty | Holding obj_type

definition state_of :: "cid \<Rightarrow> 'b world \<Rightarrow> cstate option" where
  "state_of c w =
     (case pIObject w c of
        None \<Rightarrow> Some Empty
      | Some a \<Rightarrow> (case heap w a of None \<Rightarrow> None | Some k \<Rightarrow> Some (Holding (TObject k))))"

text \<open>
  Exclusive ownership, as a property of a world: every live container that holds a
  pointer holds the address of a live stored object, no two live containers hold the same
  address, every live stored object is held by a live container, and live addresses lie
  below the allocator's next address.
\<close>

definition wf_world :: "'b world \<Rightarrow> bool" where
  "wf_world w \<longleftrightarrow>
     (\<forall>c\<in>alive w. \<forall>a. pIObject w c = Some a \<longrightarrow> a \<in> dom (heap w)) \<and>
     (\<forall>c\<in>alive w. \<forall>d\<in>alive w. \<forall>a. pIObject w c = Some a \<and> pIObject w d = Some a \<longrightarrow> c = d) \<and>
     (\<forall>a\<in>dom (heap w). \<exists>c\<in>alive w. pIObject w c = Some a) \<and>
     (\<forall>a\<in>dom (heap w). a < next_addr w)"

text \<open>What the state machine of the container promises after each operation that returns.\<close>

fun post :: "('b, 'm) op \<Rightarrow> 'b world \<Rightarrow> 'b world \<Rightarrow> bool" where
  "post (DefaultCtor c) w w' \<longleftrightarrow> state_of c w' = Some Empty"
| "post (ValueCtor c x) w w' \<longleftrightarrow>
     state_of c w' = Some (Holding (value_ctor_stored_type (ty x) (cat x)))"
| "post (InPlaceCtor c T args) w w' \<longleftrightarrow> state_of c w' = Some (Holding T)"
| "post (MoveCtor c Other) w w' \<longleftrightarrow>
     state_of Other w' = Some Empty \<and> state_of c w' = state_of Other w"
| "post (MoveAssign c Other) w w' \<longleftrightarrow>
     (c \<noteq> Other \<longrightarrow> state_of Other w' = Some Empty) \<and> state_of c w' = state_of Other w"
| "post (Emplace c T args) w w' \<longleftrightarrow> state_of c w' = Some (Holding T)"
| "post (Clear c) w w' \<longleftrightarrow> state_of c w' = Some Empty"
| "post (Call c m) w w' \<longleftrightarrow> state_of c w' = state_of c w"
| "post (Dtor c) w w' \<longleftrightarrow> c \<notin> alive w'"

definition count_created :: "obj_type \<Rightarrow> event list \<Rightarrow> nat" where
  "count_created T evs = length (filter (\<lambda>e. e = Created T) evs)"

text \<open>The events an operation has added to the trace.\<close>

definition new_events :: "'b world \<Rightarrow> 'b world \<Rightarrow> event list" where
  "new_events w w' = drop (length (trace w)) (trace w')"

text \<open>
  The header copies and moves stored values only through the constructors of their own
  class. Statements that compare the stored value with the value it was made from are
  about classes whose copy and move constructors make an equal value: for a class type,
  the constructor selected for the argument \<open>V\<close> returns the value of \<open>V\<close>; for an array
  that the header can store (an rvalue, lines 200-202, of at least one element, with
  elements that are not arrays themselves, lines 216-220) the move constructor of the
  element type does so on every element.
\<close>

definition faithful_copy :: "('b, 'm, 'r) consumer \<Rightarrow> 'b expr \<Rightarrow> bool" where
  "faithful_copy U V =
     (case canon (ty V) of
        Array E n \<Rightarrow>
          0 < n \<and> \<not> is_array E \<and> cat V = Rvalue \<and>
          (case val V of
             Elems xs \<Rightarrow>
               length xs = n \<and>
               (\<forall>a\<in>set xs. T_ctor U E [\<lparr>ty = E, cat = Rvalue, val = a\<rparr>] = Inr a)
           | Atom b \<Rightarrow> False)
      | _ \<Rightarrow> T_ctor U (ty V) [V] = Inr (val V))"


section \<open>An instance\<close>

text \<open>
  An instance of the two families in the manner of the usage notes (lines 29-83), to run
  the model on concrete programs: values are integers; the interface has a const method
  that reads the value and a non-const method that increments it (on an array both
  return its size); copying and moving make an equal value, every other constructor makes
  zero, and the class \<^verbatim>\<open>Throwing\<close> has constructors that always throw.
\<close>

datatype meth = Get | Increment

definition sample_ctor :: "obj_type \<Rightarrow> int expr list \<Rightarrow> exn + int val" where
  "sample_ctor T args =
     (if T = Named ''Throwing'' then Inl (Exception ''constructor failed'')
      else (case args of [x] \<Rightarrow> Inr (val x) | _ \<Rightarrow> Inr (Atom 0)))"

fun sample_impl :: "obj_type \<Rightarrow> meth \<Rightarrow> int val \<Rightarrow> int \<times> int val" where
  "sample_impl T Get (Atom n) = (n, Atom n)"
| "sample_impl T Increment (Atom n) = (n + 1, Atom (n + 1))"
| "sample_impl T m (Elems xs) = (int (length xs), Elems xs)"

definition sample :: "(int, meth, int) consumer" where
  "sample =
     \<lparr>T_ctor = sample_ctor, TImplementation = sample_impl, const_method = (\<lambda>m. m = Get)\<rparr>"

text \<open>
  A second instance, whose copy and move constructors are not faithful: the new object
  holds the value of the source plus one. It shows which constructor calls made a stored
  value.
\<close>

definition stepping_ctor :: "obj_type \<Rightarrow> int expr list \<Rightarrow> exn + int val" where
  "stepping_ctor T args =
     (case args of
        [x] \<Rightarrow> (case val x of Atom n \<Rightarrow> Inr (Atom (n + 1)) | Elems xs \<Rightarrow> Inr (Elems xs))
      | _ \<Rightarrow> Inr (Atom 0))"

definition stepping :: "(int, meth, int) consumer" where
  "stepping =
     \<lparr>T_ctor = stepping_ctor, TImplementation = sample_impl, const_method = (\<lambda>m. m = Get)\<rparr>"

definition int_expr :: "value_category \<Rightarrow> int \<Rightarrow> int expr" where
  "int_expr c n = \<lparr>ty = Named ''int'', cat = c, val = Atom n\<rparr>"

text \<open>
  A world with two containers: container 0 holds an \<^verbatim>\<open>int\<close> of value 5 at address 0,
  container 1 holds an \<^verbatim>\<open>int\<close> of value 7 at address 1.
\<close>

definition two_world :: "int world" where
  "two_world =
     \<lparr>heap = [0 \<mapsto> \<lparr>TObject = Named ''int'', Object_m = Atom 5\<rparr>,
              1 \<mapsto> \<lparr>TObject = Named ''int'', Object_m = Atom 7\<rparr>],
      next_addr = 2,
      trace = [Created (Named ''int''), Created (Named ''int'')],
      containers = (\<lambda>c. \<lparr>pIObject_m = (if c = 0 then Some 0 else if c = 1 then Some 1 else None)\<rparr>),
      alive = {0, 1}\<rparr>"


section \<open>Forwarding, the members and the primitives\<close>

lemma forward_deduced [simp]: "forward (deduce_forwarding (ty x) (cat x)) x = x"
  by (cases "cat x") simp_all

lemma forward_pack_id [simp]: "forward_pack args = args"
  by (simp add: forward_pack_def)

lemma move_rvalue [simp]: "cat x = Rvalue \<Longrightarrow> move x = x"
  by (simp add: move_def)

lemma pIObject_set [simp]:
  "pIObject (set_pIObject c p w) d = (if d = c then p else pIObject w d)"
  by (simp add: pIObject_def set_pIObject_def)

lemma set_pIObject_fields [simp]:
  "heap (set_pIObject c p w) = heap w"
  "trace (set_pIObject c p w) = trace w"
  "next_addr (set_pIObject c p w) = next_addr w"
  "alive (set_pIObject c p w) = alive w"
  by (simp_all add: set_pIObject_def)

lemma set_pIObject_same: "pIObject w c = p \<Longrightarrow> set_pIObject c p w = w"
  by (auto simp add: set_pIObject_def pIObject_def)

lemma heap_delete [simp]: "heap (delete_stored a w) = (heap w)(a := None)"
  and trace_delete [simp]: "trace (delete_stored a w) = trace w @ [Deleted a]"
  and next_delete [simp]: "next_addr (delete_stored a w) = next_addr w"
  and alive_delete [simp]: "alive (delete_stored a w) = alive w"
  and pIObject_delete [simp]: "pIObject (delete_stored a w) c = pIObject w c"
  by (simp_all add: delete_stored_def pIObject_def)

lemma pIObject_reset [simp]:
  "pIObject (unique_ptr_reset c p w) d = (if d = c then p else pIObject w d)"
  by (simp add: unique_ptr_reset_def Let_def split: option.splits)

lemma reset_None_empty: "pIObject w c = None \<Longrightarrow> unique_ptr_reset c None w = w"
  by (simp add: unique_ptr_reset_def set_pIObject_same)

lemma begin_lifetime_fields [simp]:
  "heap (begin_lifetime c w) = heap w"
  "trace (begin_lifetime c w) = trace w"
  "next_addr (begin_lifetime c w) = next_addr w"
  "alive (begin_lifetime c w) = insert c (alive w)"
  "pIObject (begin_lifetime c w) d = pIObject w d"
  by (simp_all add: begin_lifetime_def pIObject_def)

lemma end_lifetime_fields [simp]:
  "heap (end_lifetime c w) = heap w"
  "trace (end_lifetime c w) = trace w"
  "next_addr (end_lifetime c w) = next_addr w"
  "alive (end_lifetime c w) = alive w - {c}"
  "pIObject (end_lifetime c w) d = pIObject w d"
  by (simp_all add: end_lifetime_def pIObject_def)

lemma heap_reset:
  "heap (unique_ptr_reset c p w) = (case pIObject w c of None \<Rightarrow> heap w | Some a \<Rightarrow> (heap w)(a := None))"
  by (simp add: unique_ptr_reset_def Let_def split: option.splits)

lemma dom_heap_reset [simp]:
  "dom (heap (unique_ptr_reset c p w)) = dom (heap w) - set_option (pIObject w c)"
  by (cases "pIObject w c") (simp_all add: heap_reset)

lemma reset_fields [simp]:
  "trace (unique_ptr_reset c p w) = trace w @ (case pIObject w c of None \<Rightarrow> [] | Some a \<Rightarrow> [Deleted a])"
  "next_addr (unique_ptr_reset c p w) = next_addr w"
  "alive (unique_ptr_reset c p w) = alive w"
  by (simp_all add: unique_ptr_reset_def Let_def split: option.splits)

lemma release_eq [simp]:
  "unique_ptr_release c w = (pIObject w c, set_pIObject c None w)"
  by (simp add: unique_ptr_release_def)

lemma make_unique_Returned:
  "make_unique U T args w = Returned a w1 \<longleftrightarrow>
   (\<exists>v evs. CObjectStored_ctor U T args = Built v evs \<and> a = next_addr w \<and>
      w1 = w\<lparr>heap := (heap w)(next_addr w \<mapsto> \<lparr>TObject = T, Object_m = v\<rparr>),
             next_addr := Suc (next_addr w), trace := trace w @ evs\<rparr>)"
  by (auto simp add: make_unique_def split: construction.splits)

lemma make_unique_Threw:
  "make_unique U T args w = Threw e w1 \<longleftrightarrow> (CObjectStored_ctor U T args = Ctor_threw e \<and> w1 = w)"
  by (auto simp add: make_unique_def split: construction.splits)

lemma on_return_Returned:
  "on_return r f = Returned y s' \<longleftrightarrow> (\<exists>x s. r = Returned x s \<and> f x s = Returned y s')"
  by (cases r) auto

lemma on_return_Threw:
  "on_return r (\<lambda>x s. Returned (g x s) (h x s)) = Threw e s' \<longleftrightarrow> r = Threw e s'"
  by (cases r) auto

lemma pIObject_heap_upd [simp]:
  "pIObject (w\<lparr>heap := h, next_addr := n, trace := t\<rparr>) c = pIObject w c"
  by (simp add: pIObject_def)

lemma Array_neq [simp]: "Array E n \<noteq> E"
  by (induction E) auto

lemma count_created_simps [simp]:
  "count_created T [] = 0"
  "count_created T (Created T' # evs) = (if T' = T then Suc (count_created T evs) else count_created T evs)"
  "count_created T (Deleted a # evs) = count_created T evs"
  "count_created T (evs @ evs') = count_created T evs + count_created T evs'"
  by (auto simp add: count_created_def)

lemma count_created_map_other [simp]:
  "E \<noteq> T \<Longrightarrow> count_created T (map (\<lambda>i. Created E) idx) = 0"
  by (induction idx) auto

lemma add_const_idem [simp]: "add_const (add_const t) = add_const t"
  by (induction t) simp_all

lemma canon_add_const: "canon (add_const t) = add_const (canon t)"
  by (induction t) simp_all

lemma canon_idem [simp]: "canon (canon t) = canon t"
  by (induction t) (simp_all add: canon_add_const)

lemma canon_element_neq:
  assumes "canon T = Array E n"
  shows "E \<noteq> T"
proof
  assume "E = T"
  have "canon (Array E n) = Array E n"
    using canon_idem [of T] by (simp only: assms)
  then have "canon E = E" by simp
  with \<open>E = T\<close> assms have "E = Array E n" by simp
  then show False using Array_neq [of E n] by simp
qed

lemma keeper_move_arg_Some:
  "keeper_move_arg T args = Some x \<longleftrightarrow> args = [x] \<and> canon (ty x) = canon T \<and> cat x = Rvalue"
  by (cases "(T, args)" rule: keeper_move_arg.cases) auto

lemma keeper_array_arg_Some:
  "keeper_array_arg T args = Some x \<longleftrightarrow>
   args = [x] \<and> cat x = Rvalue \<and> (canon (ty x) = canon T \<or> canon (Const (ty x)) = canon T)"
  by (cases "(T, args)" rule: keeper_array_arg.cases) auto

text \<open>
  For a class type the construction of the stored object is one call of the constructor
  of \<open>T\<close> on the arguments as they are; what differs between the two keeper constructors
  is what becomes of an exception.
\<close>

lemma CObjectStored_ctor_class:
  assumes "\<not> is_array (canon T)"
  shows "CObjectStored_ctor U T args =
           (case T_ctor U T args of
              Inr v \<Rightarrow> Built v [Created T]
            | Inl e \<Rightarrow> if keeper_move_arg T args = None then Ctor_threw e else Ctor_terminated)"
proof (cases "keeper_move_arg T args")
  case None
  with assms show ?thesis
    by (cases "canon T")
      (simp_all add: CObjectStored_ctor_def CObjectKeeper_args_def split: sum.splits)
next
  case (Some x)
  then have "args = [x]" "move x = x" by (simp_all add: keeper_move_arg_Some)
  with Some assms show ?thesis
    by (cases "canon T")
      (simp_all add: CObjectStored_ctor_def CObjectKeeper_move_def split: sum.splits)
qed

lemma CObjectStored_ctor_array:
  assumes "canon T = Array E n"
  shows "CObjectStored_ctor U T args =
           (if n = 0 then Ctor_ill_formed
            else (case keeper_array_arg T args of
                    Some x \<Rightarrow> CObjectKeeper_array U T E n x
                  | None \<Rightarrow> Ctor_ill_formed))"
  by (simp add: CObjectStored_ctor_def assms)

lemma CObjectKeeper_array_Built:
  assumes "CObjectKeeper_array U T E n x = Built v evs"
  shows "evs = map (\<lambda>i. Created E) (make_integer_sequence n) @ [Created T]"
  using assms
  by (auto simp add: CObjectKeeper_array_def CObjectKeeper_array_indexed_def
      split: val.splits if_splits option.splits)

lemma CObjectKeeper_array_not_threw [simp]: "CObjectKeeper_array U T E n x \<noteq> Ctor_threw e"
  by (simp add: CObjectKeeper_array_def CObjectKeeper_array_indexed_def
      split: val.splits option.splits)

lemma CObjectStored_ctor_count:
  assumes "CObjectStored_ctor U T args = Built v evs"
  shows "count_created T evs = 1"
proof (cases "is_array (canon T)")
  case True
  then obtain E n where c: "canon T = Array E n" by (cases "canon T") simp_all
  from assms obtain x where "CObjectKeeper_array U T E n x = Built v evs"
    by (auto simp add: CObjectStored_ctor_array [OF c] split: if_splits option.splits)
  from CObjectKeeper_array_Built [OF this]
  have "evs = map (\<lambda>i. Created E) (make_integer_sequence n) @ [Created T]" .
  then show ?thesis using canon_element_neq [OF c] by simp
next
  case False
  from assms show ?thesis
    by (auto simp add: CObjectStored_ctor_class [OF False] split: sum.splits if_splits)
qed

lemma CObjectStored_ctor_value:
  assumes "CObjectStored_ctor U T args = Built v evs" and "\<not> is_array (canon T)"
  shows "T_ctor U T args = Inr v"
  using assms(1)
  by (auto simp add: CObjectStored_ctor_class [OF assms(2)] split: sum.splits if_splits)

lemma CObjectStored_ctor_threw:
  assumes "CObjectStored_ctor U T args = Ctor_threw e"
  shows "T_ctor U T args = Inl e"
proof (cases "is_array (canon T)")
  case True
  then obtain E n where c: "canon T = Array E n" by (cases "canon T") simp_all
  from assms show ?thesis
    by (auto simp add: CObjectStored_ctor_array [OF c] split: if_splits option.splits)
next
  case False
  from assms show ?thesis
    by (auto simp add: CObjectStored_ctor_class [OF False] split: sum.splits if_splits)
qed

lemma emplace_Ctor_threw:
  "CObjectStored_ctor U T args = Ctor_threw e \<Longrightarrow> emplace U T args this w = Threw e w"
  by (simp add: emplace_def make_unique_def)

lemma emplace_Ctor_terminated:
  "CObjectStored_ctor U T args = Ctor_terminated \<Longrightarrow> emplace U T args this w = Terminated"
  by (simp add: emplace_def make_unique_def)

lemma CObjectStored_ctor_threw_iff:
  "CObjectStored_ctor U T args = Ctor_threw e \<longleftrightarrow>
   \<not> is_array (canon T) \<and> keeper_move_arg T args = None \<and> T_ctor U T args = Inl e"
proof (cases "is_array (canon T)")
  case True
  then obtain E n where c: "canon T = Array E n" by (cases "canon T") simp_all
  with True show ?thesis
    by (simp add: CObjectStored_ctor_array [OF c] split: option.splits)
next
  case False
  then show ?thesis
    by (auto simp add: CObjectStored_ctor_class [OF False] split: sum.splits if_splits)
qed


section \<open>Exclusive ownership is preserved\<close>

text \<open>
  First for the changes an operation makes to what a world lets one observe (the live
  containers, their members, the live addresses, the allocator), then for the operations.
\<close>

lemma wf_worldI:
  assumes "\<And>c a. c \<in> alive w \<Longrightarrow> pIObject w c = Some a \<Longrightarrow> a \<in> dom (heap w)"
    and "\<And>c d a. c \<in> alive w \<Longrightarrow> d \<in> alive w \<Longrightarrow> pIObject w c = Some a \<Longrightarrow> pIObject w d = Some a \<Longrightarrow> c = d"
    and "\<And>a. a \<in> dom (heap w) \<Longrightarrow> \<exists>c\<in>alive w. pIObject w c = Some a"
    and "\<And>a. a \<in> dom (heap w) \<Longrightarrow> a < next_addr w"
  shows "wf_world w"
  unfolding wf_world_def using assms by blast

lemma wf_live: "wf_world w \<Longrightarrow> c \<in> alive w \<Longrightarrow> pIObject w c = Some a \<Longrightarrow> a \<in> dom (heap w)"
  unfolding wf_world_def by blast

lemma wf_excl:
  "wf_world w \<Longrightarrow> c \<in> alive w \<Longrightarrow> d \<in> alive w \<Longrightarrow> pIObject w c = Some a \<Longrightarrow>
   pIObject w d = Some a \<Longrightarrow> c = d"
  unfolding wf_world_def by blast

lemma wf_owned: "wf_world w \<Longrightarrow> a \<in> dom (heap w) \<Longrightarrow> \<exists>c\<in>alive w. pIObject w c = Some a"
  unfolding wf_world_def by blast

lemma wf_below: "wf_world w \<Longrightarrow> a \<in> dom (heap w) \<Longrightarrow> a < next_addr w"
  unfolding wf_world_def by blast

lemma wf_fresh: "wf_world w \<Longrightarrow> c \<in> alive w \<Longrightarrow> pIObject w c \<noteq> Some (next_addr w)"
  using wf_live [of w c "next_addr w"] wf_below [of w "next_addr w"] by auto

lemma wf_new_empty:
  assumes "wf_world w" "c \<notin> alive w" "alive w' = insert c (alive w)" "dom (heap w') = dom (heap w)"
    "next_addr w' = next_addr w" "\<And>d. pIObject w' d = (if d = c then None else pIObject w d)"
  shows "wf_world w'"
  using assms(1,2) unfolding wf_world_def assms(3-6)
  by (auto split: if_splits)

lemma wf_new_moved:
  assumes "wf_world w" "c \<notin> alive w" "Other \<in> alive w" "alive w' = insert c (alive w)"
    "dom (heap w') = dom (heap w)"
    "next_addr w' = next_addr w"
    "\<And>d. pIObject w' d = (if d = c then pIObject w Other else if d = Other then None else pIObject w d)"
  shows "wf_world w'"
  using assms(1,2,3) unfolding wf_world_def assms(4-7)
  by (auto split: if_splits)

lemma wf_new_holding:
  assumes wf: "wf_world w" and c: "c \<notin> alive w" and al: "alive w' = insert c (alive w)"
    and dm: "dom (heap w') = insert (next_addr w) (dom (heap w))"
    and nx: "next_addr w' = Suc (next_addr w)"
    and pt: "\<And>d. pIObject w' d = (if d = c then Some (next_addr w) else pIObject w d)"
  shows "wf_world w'"
proof (rule wf_worldI)
  fix d a
  assume "d \<in> alive w'" "pIObject w' d = Some a"
  then show "a \<in> dom (heap w')"
    using wf_live [OF wf, of d a] by (auto simp add: al dm pt split: if_splits)
next
  fix d e a
  assume "d \<in> alive w'" "e \<in> alive w'" "pIObject w' d = Some a" "pIObject w' e = Some a"
  then show "d = e"
    using wf_excl [OF wf, of d e a] wf_fresh [OF wf, of d] wf_fresh [OF wf, of e]
    by (auto simp add: al pt split: if_splits)
next
  fix a
  assume "a \<in> dom (heap w')"
  then have "a = next_addr w \<or> a \<in> dom (heap w)" by (simp add: dm)
  then show "\<exists>d\<in>alive w'. pIObject w' d = Some a"
  proof
    assume "a = next_addr w"
    then have "c \<in> alive w'" "pIObject w' c = Some a" by (simp_all add: al pt)
    then show ?thesis by blast
  next
    assume "a \<in> dom (heap w)"
    from wf_owned [OF wf this] obtain d where d: "d \<in> alive w" "pIObject w d = Some a" by blast
    with c have "d \<noteq> c" by blast
    with d have "d \<in> alive w'" "pIObject w' d = Some a" by (simp_all add: al pt)
    then show ?thesis by blast
  qed
next
  fix a
  assume "a \<in> dom (heap w')"
  then have "a = next_addr w \<or> a \<in> dom (heap w)" by (simp add: dm)
  then show "a < next_addr w'"
  proof
    assume "a = next_addr w"
    then show ?thesis by (simp add: nx)
  next
    assume "a \<in> dom (heap w)"
    from wf_below [OF wf this] show ?thesis by (simp add: nx)
  qed
qed

lemma wf_cleared:
  assumes wf: "wf_world w" and c: "c \<in> alive w" and al: "alive w' = alive w"
    and dm: "dom (heap w') = dom (heap w) - set_option (pIObject w c)"
    and nx: "next_addr w' = next_addr w"
    and pt: "\<And>d. pIObject w' d = (if d = c then None else pIObject w d)"
  shows "wf_world w'"
proof (rule wf_worldI)
  fix d a
  assume d: "d \<in> alive w'" "pIObject w' d = Some a"
  then have dc: "d \<noteq> c" and pd: "pIObject w d = Some a" and da: "d \<in> alive w"
    by (auto simp add: pt al split: if_splits)
  have "pIObject w c \<noteq> Some a" using wf_excl [OF wf da c pd] dc by blast
  moreover have "a \<in> dom (heap w)" using wf_live [OF wf da pd] .
  ultimately show "a \<in> dom (heap w')" by (simp add: dm)
next
  fix d e a
  assume "d \<in> alive w'" "e \<in> alive w'" "pIObject w' d = Some a" "pIObject w' e = Some a"
  then show "d = e"
    using wf_excl [OF wf, of d e a] by (auto simp add: al pt split: if_splits)
next
  fix a
  assume a: "a \<in> dom (heap w')"
  then have ad: "a \<in> dom (heap w)" and nc: "pIObject w c \<noteq> Some a" by (auto simp add: dm)
  from wf_owned [OF wf ad] obtain d where d: "d \<in> alive w" "pIObject w d = Some a" by blast
  with nc have "d \<noteq> c" by blast
  with d have "d \<in> alive w'" "pIObject w' d = Some a" by (simp_all add: al pt)
  then show "\<exists>d\<in>alive w'. pIObject w' d = Some a" by blast
next
  fix a
  assume "a \<in> dom (heap w')"
  then have "a \<in> dom (heap w)" by (simp add: dm)
  from wf_below [OF wf this] show "a < next_addr w'" by (simp add: nx)
qed

lemma wf_destroyed:
  assumes wf: "wf_world w" and c: "c \<in> alive w" and al: "alive w' = alive w - {c}"
    and dm: "dom (heap w') = dom (heap w) - set_option (pIObject w c)"
    and nx: "next_addr w' = next_addr w"
    and pt: "\<And>d. pIObject w' d = pIObject w d"
  shows "wf_world w'"
proof (rule wf_worldI)
  fix d a
  assume d: "d \<in> alive w'" "pIObject w' d = Some a"
  then have dc: "d \<noteq> c" and pd: "pIObject w d = Some a" and da: "d \<in> alive w"
    by (auto simp add: pt al)
  have "pIObject w c \<noteq> Some a" using wf_excl [OF wf da c pd] dc by blast
  moreover have "a \<in> dom (heap w)" using wf_live [OF wf da pd] .
  ultimately show "a \<in> dom (heap w')" by (simp add: dm)
next
  fix d e a
  assume "d \<in> alive w'" "e \<in> alive w'" "pIObject w' d = Some a" "pIObject w' e = Some a"
  then show "d = e"
    using wf_excl [OF wf, of d e a] by (auto simp add: al pt)
next
  fix a
  assume a: "a \<in> dom (heap w')"
  then have ad: "a \<in> dom (heap w)" and nc: "pIObject w c \<noteq> Some a" by (auto simp add: dm)
  from wf_owned [OF wf ad] obtain d where d: "d \<in> alive w" "pIObject w d = Some a" by blast
  with nc have "d \<noteq> c" by blast
  with d have "d \<in> alive w'" "pIObject w' d = Some a" by (simp_all add: al pt)
  then show "\<exists>d\<in>alive w'. pIObject w' d = Some a" by blast
next
  fix a
  assume "a \<in> dom (heap w')"
  then have "a \<in> dom (heap w)" by (simp add: dm)
  from wf_below [OF wf this] show "a < next_addr w'" by (simp add: nx)
qed

lemma wf_assigned:
  assumes wf: "wf_world w" and c: "c \<in> alive w" and ot: "Other \<in> alive w" and ne: "c \<noteq> Other"
    and al: "alive w' = alive w"
    and dm: "dom (heap w') = dom (heap w) - set_option (pIObject w c)"
    and nx: "next_addr w' = next_addr w"
    and pt: "\<And>d. pIObject w' d =
               (if d = c then pIObject w Other else if d = Other then None else pIObject w d)"
  shows "wf_world w'"
proof (rule wf_worldI)
  fix d a
  assume d: "d \<in> alive w'" "pIObject w' d = Some a"
  define h where "h = (if d = c then Other else d)"
  from d have hc: "h \<noteq> c" and ph: "pIObject w h = Some a" and ha: "h \<in> alive w"
    using ne ot by (auto simp add: h_def pt al split: if_splits)
  have "pIObject w c \<noteq> Some a" using wf_excl [OF wf ha c ph] hc by blast
  moreover have "a \<in> dom (heap w)" using wf_live [OF wf ha ph] .
  ultimately show "a \<in> dom (heap w')" by (simp add: dm)
next
  fix d e a
  assume d: "d \<in> alive w'" "pIObject w' d = Some a" and e: "e \<in> alive w'" "pIObject w' e = Some a"
  define h where "h = (\<lambda>x. if x = c then Other else x)"
  from d have hd: "h d \<in> alive w" "pIObject w (h d) = Some a" "d \<noteq> Other"
    using ot ne by (auto simp add: h_def pt al split: if_splits)
  from e have he: "h e \<in> alive w" "pIObject w (h e) = Some a" "e \<noteq> Other"
    using ot ne by (auto simp add: h_def pt al split: if_splits)
  have "h d = h e" using wf_excl [OF wf hd(1) he(1) hd(2) he(2)] .
  with hd(3) he(3) show "d = e" by (auto simp add: h_def split: if_splits)
next
  fix a
  assume a: "a \<in> dom (heap w')"
  then have ad: "a \<in> dom (heap w)" and nc: "pIObject w c \<noteq> Some a" by (auto simp add: dm)
  from wf_owned [OF wf ad] obtain d where d: "d \<in> alive w" "pIObject w d = Some a" by blast
  with nc have dc: "d \<noteq> c" by blast
  show "\<exists>d\<in>alive w'. pIObject w' d = Some a"
  proof (cases "d = Other")
    case True
    with d c have "c \<in> alive w'" "pIObject w' c = Some a" by (simp_all add: al pt)
    then show ?thesis by blast
  next
    case False
    with d dc have "d \<in> alive w'" "pIObject w' d = Some a" by (simp_all add: al pt)
    then show ?thesis by blast
  qed
next
  fix a
  assume "a \<in> dom (heap w')"
  then have "a \<in> dom (heap w)" by (simp add: dm)
  from wf_below [OF wf this] show "a < next_addr w'" by (simp add: nx)
qed

lemma wf_emplaced:
  assumes wf: "wf_world w" and c: "c \<in> alive w" and al: "alive w' = alive w"
    and dm: "dom (heap w') = insert (next_addr w) (dom (heap w)) - set_option (pIObject w c)"
    and nx: "next_addr w' = Suc (next_addr w)"
    and pt: "\<And>d. pIObject w' d = (if d = c then Some (next_addr w) else pIObject w d)"
  shows "wf_world w'"
proof (rule wf_worldI)
  fix d a
  assume d: "d \<in> alive w'" "pIObject w' d = Some a"
  show "a \<in> dom (heap w')"
  proof (cases "d = c")
    case True
    with d have "a = next_addr w" by (simp add: pt)
    with wf_fresh [OF wf c] show ?thesis by (simp add: dm)
  next
    case False
    with d have pd: "pIObject w d = Some a" and da: "d \<in> alive w" by (simp_all add: pt al)
    have "pIObject w c \<noteq> Some a" using wf_excl [OF wf da c pd] False by blast
    moreover have "a \<in> dom (heap w)" using wf_live [OF wf da pd] .
    ultimately show ?thesis by (simp add: dm)
  qed
next
  fix d e a
  assume "d \<in> alive w'" "e \<in> alive w'" "pIObject w' d = Some a" "pIObject w' e = Some a"
  then show "d = e"
    using wf_excl [OF wf, of d e a] wf_fresh [OF wf, of d] wf_fresh [OF wf, of e]
    by (auto simp add: al pt split: if_splits)
next
  fix a
  assume a: "a \<in> dom (heap w')"
  show "\<exists>d\<in>alive w'. pIObject w' d = Some a"
  proof (cases "a = next_addr w")
    case True
    with c have "c \<in> alive w'" "pIObject w' c = Some a" by (simp_all add: al pt)
    then show ?thesis by blast
  next
    case False
    with a have ad: "a \<in> dom (heap w)" and nc: "pIObject w c \<noteq> Some a" by (auto simp add: dm)
    from wf_owned [OF wf ad] obtain d where d: "d \<in> alive w" "pIObject w d = Some a" by blast
    with nc have "d \<noteq> c" by blast
    with d have "d \<in> alive w'" "pIObject w' d = Some a" by (simp_all add: al pt)
    then show ?thesis by blast
  qed
next
  fix a
  assume "a \<in> dom (heap w')"
  then have "a = next_addr w \<or> a \<in> dom (heap w)" by (auto simp add: dm)
  then show "a < next_addr w'"
  proof
    assume "a = next_addr w"
    then show ?thesis by (simp add: nx)
  next
    assume "a \<in> dom (heap w)"
    from wf_below [OF wf this] show ?thesis by (simp add: nx)
  qed
qed

lemma wf_same:
  assumes "wf_world w" "alive w' = alive w" "dom (heap w') = dom (heap w)"
    "next_addr w' = next_addr w" "\<And>d. pIObject w' d = pIObject w d"
  shows "wf_world w'"
  using assms(1) unfolding wf_world_def assms(2-5) .

lemma heap_reset_fresh:
  assumes "wf_world w" and "c \<in> alive w"
  shows "heap (unique_ptr_reset c (Some (next_addr w))
           (w\<lparr>heap := (heap w)(next_addr w \<mapsto> k), next_addr := n, trace := t\<rparr>)) (next_addr w) =
         Some k"
  using wf_fresh [OF assms] by (cases "pIObject w c") (simp_all add: heap_reset)

lemma wf_CAnyMovable_default:
  "wf_world w \<Longrightarrow> c \<notin> alive w \<Longrightarrow> wf_world (begin_lifetime c (CAnyMovable_default c w))"
  by (erule wf_new_empty) (simp_all add: CAnyMovable_default_def)

lemma make_unique_fields:
  assumes "make_unique U T args w = Returned a w1"
  shows "a = next_addr w" "alive w1 = alive w" "next_addr w1 = Suc (next_addr w)"
    "dom (heap w1) = insert (next_addr w) (dom (heap w))" "pIObject w1 d = pIObject w d"
    "\<exists>v evs. CObjectStored_ctor U T args = Built v evs \<and> trace w1 = trace w @ evs \<and>
       heap w1 = (heap w)(next_addr w \<mapsto> \<lparr>TObject = T, Object_m = v\<rparr>)"
  using assms by (auto simp add: make_unique_Returned)

lemma wf_adopt_new:
  assumes "wf_world w" "c \<notin> alive w" "make_unique U T args w = Returned a w1"
  shows "wf_world (begin_lifetime c (set_pIObject c (Some a) w1))"
  using assms(1,2) by (rule wf_new_holding) (simp_all add: make_unique_fields [OF assms(3)])

lemma wf_CAnyMovable_move:
  assumes "wf_world w" "c \<notin> alive w" "Other \<in> alive w"
  shows "wf_world (begin_lifetime c (CAnyMovable_move c Other w))"
  using assms by (rule wf_new_moved) (auto simp add: CAnyMovable_move_def)

lemma move_assign_self: "move_assign c c w = w"
  by (simp add: move_assign_def unique_ptr_reset_def set_pIObject_def pIObject_def)

lemma wf_move_assign:
  assumes "wf_world w" "c \<in> alive w" "Other \<in> alive w"
  shows "wf_world (move_assign c Other w)"
proof (cases "c = Other")
  case True
  with assms show ?thesis by (simp add: move_assign_self)
next
  case False
  show ?thesis
    by (rule wf_assigned [OF assms False]) (use False in \<open>auto simp add: move_assign_def\<close>)
qed

lemma wf_emplace:
  assumes "wf_world w" "c \<in> alive w" "make_unique U T args w = Returned a w1"
  shows "wf_world (unique_ptr_reset c (Some a) w1)"
  using assms(1,2)
  by (rule wf_emplaced) (simp_all add: make_unique_fields [OF assms(3)])

lemma wf_clear: "wf_world w \<Longrightarrow> c \<in> alive w \<Longrightarrow> wf_world (clear c w)"
  by (erule wf_cleared) (simp_all add: clear_def)

lemma wf_CAnyMovable_dtor:
  "wf_world w \<Longrightarrow> c \<in> alive w \<Longrightarrow> wf_world (end_lifetime c (CAnyMovable_dtor c w))"
  by (erule wf_destroyed) (auto simp add: CAnyMovable_dtor_def split: option.splits)

lemma invoke_Returned:
  "invoke U m p w = Returned r w1 \<longleftrightarrow>
   (\<exists>a k. target p = Some a \<and> heap w a = Some k \<and> \<not> (pointee_const p \<and> \<not> const_method U m) \<and>
      r = fst (TImplementation U (TObject k) m (Object k)) \<and>
      w1 = w\<lparr>heap := (heap w)(a \<mapsto> k\<lparr>Object_m := snd (TImplementation U (TObject k) m (Object k))\<rparr>)\<rparr>)"
  by (auto simp add: invoke_def split: option.splits prod.splits)

lemma invoke_not_Threw [simp]: "invoke U m p w \<noteq> Threw e w1"
  by (auto simp add: invoke_def split: option.splits prod.splits)

lemma wf_invoke:
  assumes "wf_world w" "invoke U m p w = Returned r w1"
  shows "wf_world w1"
proof -
  from assms(2) obtain a k v where a: "heap w a = Some k"
    and w1: "w1 = w\<lparr>heap := (heap w)(a \<mapsto> k\<lparr>Object_m := v\<rparr>)\<rparr>"
    unfolding invoke_Returned by blast
  from a have "dom (heap w1) = dom (heap w)" by (auto simp add: w1)
  then show ?thesis
    by (intro wf_same [OF assms(1)]) (simp_all add: w1 pIObject_def)
qed

lemma state_after_Some:
  "state_after r = Some s \<longleftrightarrow> (\<exists>x. r = Returned x s) \<or> (\<exists>e. r = Threw e s)"
  by (cases r) auto

lemma CObjType_deduce [simp]: "CObjType (deduce_forwarding U c) = U"
  by (cases c) (simp_all add: CObjType_def)

lemma CAnyMovable_value_Returned:
  "CAnyMovable_value U x c w = Returned u w' \<longleftrightarrow>
   (\<exists>a w1. make_unique U (ty x) [x] w = Returned a w1 \<and> w' = set_pIObject c (Some a) w1)"
  by (auto simp add: CAnyMovable_value_def on_return_Returned)

lemma CAnyMovable_value_Threw:
  "CAnyMovable_value U x c w = Threw e w' \<longleftrightarrow> make_unique U (ty x) [x] w = Threw e w'"
  by (simp add: CAnyMovable_value_def on_return_Threw)

lemma CAnyMovable_in_place_Returned:
  "CAnyMovable_in_place U T args c w = Returned u w' \<longleftrightarrow>
   (\<exists>a w1. make_unique U T args w = Returned a w1 \<and> w' = set_pIObject c (Some a) w1)"
  by (auto simp add: CAnyMovable_in_place_def on_return_Returned)

lemma CAnyMovable_in_place_Threw:
  "CAnyMovable_in_place U T args c w = Threw e w' \<longleftrightarrow> make_unique U T args w = Threw e w'"
  by (simp add: CAnyMovable_in_place_def on_return_Threw)

lemma emplace_Returned:
  "emplace U T args c w = Returned u w' \<longleftrightarrow>
   (\<exists>a w1. make_unique U T args w = Returned a w1 \<and> w' = unique_ptr_reset c (Some a) w1)"
  by (auto simp add: emplace_def on_return_Returned)

lemma emplace_Threw:
  "emplace U T args c w = Threw e w' \<longleftrightarrow> make_unique U T args w = Threw e w'"
  by (simp add: emplace_def on_return_Threw)

lemma exec_Threw: "exec U x w = Threw e w' \<Longrightarrow> w' = w"
  by (cases x)
    (auto simp add: on_return_Threw CAnyMovable_value_Threw CAnyMovable_in_place_Threw
      emplace_Threw make_unique_Threw split: if_splits)

lemma exec_Returned_wf:
  assumes "wf_world w" "exec U x w = Returned u w'"
  shows "wf_world w'"
proof (cases x)
  case (DefaultCtor c)
  with assms show ?thesis by (auto split: if_splits intro: wf_CAnyMovable_default)
next
  case (ValueCtor c v)
  with assms show ?thesis
    by (auto simp add: on_return_Returned CAnyMovable_value_Returned split: if_splits
        intro: wf_adopt_new)
next
  case (InPlaceCtor c T args)
  with assms show ?thesis
    by (auto simp add: on_return_Returned CAnyMovable_in_place_Returned split: if_splits
        intro: wf_adopt_new)
next
  case (MoveCtor c Other)
  with assms show ?thesis by (auto split: if_splits intro: wf_CAnyMovable_move)
next
  case (MoveAssign c Other)
  with assms show ?thesis by (auto split: if_splits intro: wf_move_assign)
next
  case (Emplace c T args)
  with assms show ?thesis
    by (auto simp add: emplace_Returned split: if_splits intro: wf_emplace)
next
  case (Clear c)
  with assms show ?thesis by (auto split: if_splits intro: wf_clear)
next
  case (Call c m)
  with assms show ?thesis
    by (auto simp add: on_return_Returned split: if_splits intro: wf_invoke)
next
  case (Dtor c)
  with assms show ?thesis by (auto split: if_splits intro: wf_CAnyMovable_dtor)
qed

lemma exec_wf:
  assumes "wf_world w" "state_after (exec U x w) = Some w'"
  shows "wf_world w'"
  using assms exec_Returned_wf [of w U x _ w'] exec_Threw [of U x w _ w']
  by (auto simp add: state_after_Some)

lemma run_wf: "wf_world w \<Longrightarrow> run U xs w = Some w' \<Longrightarrow> wf_world w'"
proof (induction xs arbitrary: w)
  case Nil
  then show ?case by simp
next
  case (Cons x xs)
  from Cons.prems(2) obtain w1 where 1: "state_after (exec U x w) = Some w1"
    and 2: "run U xs w1 = Some w'"
    by (auto split: option.splits)
  from exec_wf [OF Cons.prems(1) 1] have "wf_world w1" .
  from Cons.IH [OF this 2] show ?case .
qed

lemma wf_init_world: "wf_world init_world"
  by (simp add: wf_world_def init_world_def)


section \<open>Evaluating the instance\<close>

lemma wf_two_world: "wf_world two_world"
  by (auto simp add: wf_world_def two_world_def pIObject_def split: if_splits)

lemma two_world_fields [simp]:
  "pIObject two_world c = (if c = 0 then Some 0 else if c = 1 then Some 1 else None)"
  "next_addr two_world = 2" "alive two_world = {0, 1}"
  "trace two_world = [Created (Named ''int''), Created (Named ''int'')]"
  "heap two_world = [0 \<mapsto> \<lparr>TObject = Named ''int'', Object_m = Atom 5\<rparr>,
              1 \<mapsto> \<lparr>TObject = Named ''int'', Object_m = Atom 7\<rparr>]"
  by (simp_all add: two_world_def pIObject_def)

lemma sample_fields [simp]:
  "T_ctor sample = sample_ctor" "TImplementation sample = sample_impl"
  "const_method sample = (\<lambda>m. m = Get)"
  by (simp_all add: sample_def)

lemma make_unique_Built:
  "CObjectStored_ctor U T args = Built v evs \<Longrightarrow>
   make_unique U T args w =
     Returned (next_addr w)
       (w\<lparr>heap := (heap w)(next_addr w \<mapsto> \<lparr>TObject = T, Object_m = v\<rparr>),
          next_addr := Suc (next_addr w), trace := trace w @ evs\<rparr>)"
  by (simp add: make_unique_def)

lemma int_expr_fields [simp]:
  "ty (int_expr c n) = Named ''int''" "cat (int_expr c n) = c" "val (int_expr c n) = Atom n"
  by (simp_all add: int_expr_def)

lemma emplace_Built:
  "CObjectStored_ctor U T args = Built v evs \<Longrightarrow>
   emplace U T args this w =
     Returned ()
       (unique_ptr_reset this (Some (next_addr w))
          (w\<lparr>heap := (heap w)(next_addr w \<mapsto> \<lparr>TObject = T, Object_m = v\<rparr>),
             next_addr := Suc (next_addr w), trace := trace w @ evs\<rparr>))"
  by (simp add: emplace_def make_unique_Built)


section \<open>Arrays, copies and calls through the interface\<close>

lemma move_rvalue_expr [simp]:
  "move \<lparr>ty = E, cat = c, val = a\<rparr> = \<lparr>ty = E, cat = Rvalue, val = a\<rparr>"
  by (simp add: move_def)

lemma move_elements_results:
  assumes "length vs = length idx"
    and "\<forall>k<length idx. idx ! k < length xs \<and>
           T_ctor U E [\<lparr>ty = E, cat = Rvalue, val = xs ! (idx ! k)\<rparr>] = Inr (vs ! k)"
  shows "move_elements U E xs idx = Some vs"
  using assms
proof (induction idx arbitrary: vs)
  case Nil
  then show ?case by simp
next
  case (Cons i idx)
  from Cons.prems(1) obtain v vs' where vs: "vs = v # vs'" and len: "length vs' = length idx"
    by (cases vs) simp_all
  from Cons.prems(2) have "(i # idx) ! 0 < length xs \<and>
      T_ctor U E [\<lparr>ty = E, cat = Rvalue, val = xs ! ((i # idx) ! 0)\<rparr>] = Inr (vs ! 0)"
    by blast
  then have hd: "i < length xs" "T_ctor U E [\<lparr>ty = E, cat = Rvalue, val = xs ! i\<rparr>] = Inr v"
    by (simp_all add: vs)
  have "\<forall>k<length idx. idx ! k < length xs \<and>
           T_ctor U E [\<lparr>ty = E, cat = Rvalue, val = xs ! (idx ! k)\<rparr>] = Inr (vs' ! k)"
  proof (intro allI impI)
    fix k assume "k < length idx"
    then have "Suc k < length (i # idx)" by simp
    with Cons.prems(2) have "(i # idx) ! Suc k < length xs \<and>
        T_ctor U E [\<lparr>ty = E, cat = Rvalue, val = xs ! ((i # idx) ! Suc k)\<rparr>] = Inr (vs ! Suc k)"
      by blast
    then show "idx ! k < length xs \<and>
           T_ctor U E [\<lparr>ty = E, cat = Rvalue, val = xs ! (idx ! k)\<rparr>] = Inr (vs' ! k)"
      by (simp add: vs)
  qed
  from Cons.IH [OF len this] hd show ?case by (simp add: vs)
qed

lemma move_elements_indexwise:
  assumes "move_elements U E xs idx = Some vs"
  shows "length vs = length idx \<and>
         (\<forall>k<length idx. idx ! k < length xs \<and>
            T_ctor U E [\<lparr>ty = E, cat = Rvalue, val = xs ! (idx ! k)\<rparr>] = Inr (vs ! k))"
  using assms
proof (induction idx arbitrary: vs)
  case Nil
  then show ?case by simp
next
  case (Cons i idx)
  from Cons.prems obtain v vs' where i: "i < length xs"
    and v: "T_ctor U E [\<lparr>ty = E, cat = Rvalue, val = xs ! i\<rparr>] = Inr v"
    and r: "move_elements U E xs idx = Some vs'" and vs: "vs = v # vs'"
    by (auto split: if_splits sum.splits option.splits)
  from Cons.IH [OF r] i v show ?case
    by (auto simp add: vs nth_Cons split: nat.splits)
qed

lemma move_elements_sequence:
  assumes "length xs = n" and "length vs = n"
    and "\<forall>i<n. T_ctor U E [\<lparr>ty = E, cat = Rvalue, val = xs ! i\<rparr>] = Inr (vs ! i)"
  shows "move_elements U E xs (make_integer_sequence n) = Some vs"
  unfolding make_integer_sequence_def
  by (rule move_elements_results) (use assms in simp_all)

lemma CObjectKeeper_array_results:
  assumes "val x = Elems xs" and "length xs = n" and "length vs = n" and "\<not> is_array E"
    and "\<forall>i<n. T_ctor U E [\<lparr>ty = E, cat = Rvalue, val = xs ! i\<rparr>] = Inr (vs ! i)"
  shows "CObjectKeeper_array U T E n x =
           Built (Elems vs) (map (\<lambda>i. Created E) [0..<n] @ [Created T])"
  using assms(1,2,4) move_elements_sequence [OF assms(2,3,5)]
  by (simp add: CObjectKeeper_array_def CObjectKeeper_array_indexed_def make_integer_sequence_def)

lemma CObjectKeeper_array_Built_elements:
  assumes "CObjectKeeper_array U T E n x = Built v evs" and "val x = Elems xs"
  shows "\<exists>vs. v = Elems vs \<and> length vs = n \<and> length xs = n \<and>
           (\<forall>i<n. T_ctor U E [\<lparr>ty = E, cat = Rvalue, val = xs ! i\<rparr>] = Inr (vs ! i))"
proof -
  from assms obtain vs where n: "length xs = n"
    and m: "move_elements U E xs [0..<n] = Some vs" and v: "v = Elems vs"
    by (auto simp add: CObjectKeeper_array_def CObjectKeeper_array_indexed_def
        make_integer_sequence_def split: if_splits option.splits)
  from move_elements_indexwise [OF m] have "length vs = n"
    and "\<forall>k<n. T_ctor U E [\<lparr>ty = E, cat = Rvalue, val = xs ! ([0..<n] ! k)\<rparr>] = Inr (vs ! k)"
    by simp_all
  then show ?thesis using n v by simp
qed

lemma CObjectKeeper_array_element_throws:
  assumes "val x = Elems xs" and "length xs = n" and "\<not> is_array E" and "i < n"
    and "T_ctor U E [\<lparr>ty = E, cat = Rvalue, val = xs ! i\<rparr>] = Inl e"
  shows "CObjectKeeper_array U T E n x = Ctor_terminated"
proof (cases "move_elements U E xs [0..<n]")
  case None
  with assms(1,2,3) show ?thesis
    by (simp add: CObjectKeeper_array_def CObjectKeeper_array_indexed_def
        make_integer_sequence_def)
next
  case (Some vs)
  from move_elements_indexwise [OF Some] assms(4)
  have "T_ctor U E [\<lparr>ty = E, cat = Rvalue, val = xs ! ([0..<n] ! i)\<rparr>] = Inr (vs ! i)"
    by simp
  with assms(4,5) show ?thesis by simp
qed

lemma faithful_copy_Built:
  assumes "faithful_copy U V"
  shows "\<exists>evs. CObjectStored_ctor U (ty V) [V] = Built (val V) evs"
proof (cases "is_array (canon (ty V))")
  case True
  then obtain E n where c: "canon (ty V) = Array E n" by (cases "canon (ty V)") simp_all
  with assms obtain xs where f: "0 < n" "\<not> is_array E" "cat V = Rvalue" "val V = Elems xs"
    "length xs = n" "\<forall>a\<in>set xs. T_ctor U E [\<lparr>ty = E, cat = Rvalue, val = a\<rparr>] = Inr a"
    by (auto simp add: faithful_copy_def split: val.splits)
  from f(5,6) have "\<forall>i<n. T_ctor U E [\<lparr>ty = E, cat = Rvalue, val = xs ! i\<rparr>] = Inr (xs ! i)"
    by simp
  from CObjectKeeper_array_results [OF f(4,5) f(5) f(2) this]
  have "CObjectKeeper_array U (ty V) E n V =
          Built (Elems xs) (map (\<lambda>i. Created E) [0..<n] @ [Created (ty V)])" .
  with f(1,3,4) show ?thesis
    by (simp add: CObjectStored_ctor_array [OF c])
next
  case False
  with assms have t: "T_ctor U (ty V) [V] = Inr (val V)"
    by (cases "canon (ty V)") (simp_all add: faithful_copy_def)
  show ?thesis
    by (simp add: CObjectStored_ctor_class [OF False] t)
qed

lemma isDefined_iff: "isDefined c w \<longleftrightarrow> pIObject w c \<noteq> None"
  by (simp add: isDefined_def unique_ptr_bool_def unique_ptr_get_def)

lemma invoke_live:
  assumes "target p = Some a" "heap w a = Some k" "\<not> pointee_const p"
  shows "invoke U m p w =
     Returned (fst (TImplementation U (TObject k) m (Object k)))
       (w\<lparr>heap := (heap w)(a \<mapsto> k\<lparr>Object_m := snd (TImplementation U (TObject k) m (Object k))\<rparr>)\<rparr>)"
  using assms by (simp add: invoke_def split: prod.splits)

lemma operator_arrow_fields [simp]:
  "target (operator_arrow c w) = pIObject w c" "pointee_const (operator_arrow c w) = False"
  "target (operator_arrow_const c w) = pIObject w c" "pointee_const (operator_arrow_const c w) = False"
  by (simp_all add: operator_arrow_def operator_arrow_const_def unique_ptr_get_def)

lemma invoke_depends:
  assumes "target p = target q" "pointee_const p = pointee_const q"
    and "\<And>a. target p = Some a \<Longrightarrow> heap w a = heap v a"
  shows "returned (invoke U m p w) = returned (invoke U m q v)"
  using assms by (auto simp add: invoke_def split: option.splits prod.splits)

lemma new_events_reset [simp]:
  "count_created T (new_events w (unique_ptr_reset c p (set_pIObject d q w))) = 0"
  by (simp add: new_events_def split: option.splits)


section \<open>The state of a container after each operation\<close>

lemma state_of_None [simp]: "pIObject w c = None \<Longrightarrow> state_of c w = Some Empty"
  by (simp add: state_of_def)

lemma state_of_Some:
  "pIObject w c = Some a \<Longrightarrow> heap w a = Some k \<Longrightarrow> state_of c w = Some (Holding (TObject k))"
  by (simp add: state_of_def)

lemma state_of_cong:
  assumes "pIObject w' c = pIObject w d"
    and "\<And>a. pIObject w d = Some a \<Longrightarrow> map_option TObject (heap w' a) = map_option TObject (heap w a)"
  shows "state_of c w' = state_of d w"
proof (cases "pIObject w d")
  case None
  with assms(1) show ?thesis by simp
next
  case (Some a)
  with assms(2) have "map_option TObject (heap w' a) = map_option TObject (heap w a)" by blast
  with Some assms(1) show ?thesis
    by (cases "heap w a"; cases "heap w' a") (simp_all add: state_of_def)
qed

lemma value_ctor_stored_type_eq [simp]: "value_ctor_stored_type U c = U"
  by (simp add: value_ctor_stored_type_def)

lemma held_card: "card {a \<in> D. p = Some a} \<le> Suc 0"
proof -
  have "{a \<in> D. p = Some a} \<subseteq> set_option p" by auto
  then have "card {a \<in> D. p = Some a} \<le> card (set_option p)"
    by (intro card_mono) simp_all
  also have "\<dots> \<le> Suc 0" by (cases p) simp_all
  finally show ?thesis .
qed

lemma wf_state_of:
  assumes "wf_world w" "c \<in> alive w"
  shows "state_of c w = Some Empty \<or> (\<exists>T. state_of c w = Some (Holding T))"
proof (cases "pIObject w c")
  case None
  then show ?thesis by simp
next
  case (Some a)
  from wf_live [OF assms this] obtain k where "heap w a = Some k" by blast
  from state_of_Some [OF Some this] show ?thesis by blast
qed

lemma exec_post:
  assumes wf: "wf_world w" and ex: "exec U x w = Returned () w'"
  shows "post x w w'"
proof (cases x)
  case (DefaultCtor c)
  with ex show ?thesis by (auto simp add: CAnyMovable_default_def split: if_splits)
next
  case (ValueCtor c v)
  with ex show ?thesis
    by (auto simp add: on_return_Returned CAnyMovable_value_Returned make_unique_Returned
        state_of_def split: if_splits)
next
  case (InPlaceCtor c T args)
  with ex show ?thesis
    by (auto simp add: on_return_Returned CAnyMovable_in_place_Returned make_unique_Returned
        state_of_def split: if_splits)
next
  case (MoveCtor c Other)
  with ex have c: "c \<notin> alive w" "Other \<in> alive w"
    and w': "w' = begin_lifetime c (CAnyMovable_move c Other w)"
    by (auto split: if_splits)
  from c have ne: "c \<noteq> Other" by blast
  have "state_of Other w' = Some Empty"
    using ne by (simp add: w' CAnyMovable_move_def)
  moreover have "state_of c w' = state_of Other w"
    by (rule state_of_cong) (simp_all add: w' CAnyMovable_move_def)
  ultimately show ?thesis using MoveCtor by simp
next
  case (MoveAssign c Other)
  with ex have c: "c \<in> alive w" "Other \<in> alive w" and w': "w' = move_assign c Other w"
    by (auto split: if_splits)
  show ?thesis
  proof (cases "c = Other")
    case True
    then show ?thesis using MoveAssign w' by (simp add: move_assign_self)
  next
    case False
    have "state_of Other w' = Some Empty"
      using False by (simp add: w' move_assign_def)
    moreover have "state_of c w' = state_of Other w"
    proof (rule state_of_cong)
      show "pIObject w' c = pIObject w Other" by (simp add: w' move_assign_def)
    next
      fix a assume a: "pIObject w Other = Some a"
      have "pIObject w c \<noteq> Some a"
        using wf_excl [OF wf c(1) c(2) _ a] False by blast
      then have "heap w' a = heap w a"
        using False by (cases "pIObject w c") (simp_all add: w' move_assign_def heap_reset)
      then show "map_option TObject (heap w' a) = map_option TObject (heap w a)" by simp
    qed
    ultimately show ?thesis using MoveAssign by simp
  qed
next
  case (Emplace c T args)
  with ex have c: "c \<in> alive w" and e: "emplace U T args c w = Returned () w'"
    by (auto split: if_splits)
  from e obtain a w1 where m: "make_unique U T args w = Returned a w1"
    and w': "w' = unique_ptr_reset c (Some a) w1"
    unfolding emplace_Returned by blast
  from m obtain v evs where a: "a = next_addr w"
    and w1: "w1 = w\<lparr>heap := (heap w)(next_addr w \<mapsto> \<lparr>TObject = T, Object_m = v\<rparr>),
             next_addr := Suc (next_addr w), trace := trace w @ evs\<rparr>"
    unfolding make_unique_Returned by blast
  have "pIObject w' c = Some (next_addr w)" by (simp add: w' a)
  moreover have "heap w' (next_addr w) = Some \<lparr>TObject = T, Object_m = v\<rparr>"
    unfolding w' a w1 by (rule heap_reset_fresh [OF wf c])
  ultimately have "state_of c w' = Some (Holding T)"
    by (simp add: state_of_Some)
  then show ?thesis using Emplace by simp
next
  case (Clear c)
  with ex show ?thesis by (auto simp add: clear_def split: if_splits)
next
  case (Call c m)
  with ex obtain r where "invoke U m (operator_arrow c w) w = Returned r w'"
    by (auto simp add: on_return_Returned split: if_splits)
  then obtain a k v where a: "heap w a = Some k"
    and w': "w' = w\<lparr>heap := (heap w)(a \<mapsto> k\<lparr>Object_m := v\<rparr>)\<rparr>"
    unfolding invoke_Returned by blast
  have "state_of c w' = state_of c w"
    by (rule state_of_cong) (use a in \<open>simp_all add: w' pIObject_def\<close>)
  then show ?thesis using Call by simp
next
  case (Dtor c)
  with ex show ?thesis by (auto split: if_splits)
qed


section \<open>The claims\<close>

subsection \<open>C1: emplace on a container that holds an object\<close>

text \<open>
  C1 says that \<^verbatim>\<open>emplace<T>(args...)\<close> releases the previously held object before it
  attempts to construct the new \<open>T\<close>, so that a constructor that throws leaves the
  container empty. The code (line 147) evaluates \<^verbatim>\<open>std::make_unique\<close> first and assigns
  afterwards. In the world \<open>two_world\<close> container 0 holds the \<^verbatim>\<open>int\<close> 5; emplacing a
  \<^verbatim>\<open>Throwing\<close>, whose constructor throws, propagates the exception and leaves the world
  as it was: container 0 is still defined and still holds the \<^verbatim>\<open>int\<close> 5.
\<close>

theorem emplace_release_first_counterexample:
  "isDefined 0 two_world \<and>
   heap two_world 0 = Some \<lparr>TObject = Named ''int'', Object_m = Atom 5\<rparr> \<and>
   T_ctor sample (Named ''Throwing'') [] = Inl (Exception ''constructor failed'') \<and>
   emplace sample (Named ''Throwing'') [] 0 two_world =
     Threw (Exception ''constructor failed'') two_world \<and>
   state_after (emplace sample (Named ''Throwing'') [] 0 two_world) = Some two_world"
  by (simp add: isDefined_def unique_ptr_bool_def unique_ptr_get_def emplace_def make_unique_def
      CObjectStored_ctor_def CObjectKeeper_args_def sample_ctor_def)

text \<open>
  C1 as amended: \<^verbatim>\<open>emplace<T>(args...)\<close> constructs the new stored object while the
  container still holds the previous one, and releases the previous one only after the
  construction has succeeded: the trace shows the objects created first and the deletion
  of the previous object last; afterwards the container holds the new object and the
  previous one is gone. Whenever \<^verbatim>\<open>emplace\<close> throws, nothing has changed: the container
  still holds the previous object. It throws (an exception of a constructor; allocation
  is taken to succeed) exactly when \<open>T\<close> is a class type, the
  arguments go to the variadic constructor of the keeper (they are not one rvalue of type
  \<open>T\<close>) and the constructor of \<open>T\<close> throws on them. When the arguments are one rvalue of
  type \<open>T\<close>, the keeper's constructor is \<^verbatim>\<open>noexcept\<close> (line 171) and a throwing constructor
  of \<open>T\<close> ends the program instead. For a class type whose constructor returns, the
  construction of the stored object is that one constructor call.
\<close>

theorem emplace_constructs_then_releases:
  assumes "wf_world w" and "this \<in> alive w"
  shows "(emplace U T args this w = Threw e w') =
           (\<not> is_array (canon T) \<and> keeper_move_arg T args = None \<and>
            T_ctor U T args = Inl e \<and> w' = w) \<and>
         (\<not> is_array (canon T) \<and> keeper_move_arg T args \<noteq> None \<and> T_ctor U T args = Inl e \<longrightarrow>
            emplace U T args this w = Terminated) \<and>
         (\<not> is_array (canon T) \<and> T_ctor U T args = Inr v \<longrightarrow>
            CObjectStored_ctor U T args = Built v [Created T]) \<and>
         (CObjectStored_ctor U T args = Built v evs \<longrightarrow>
            (\<exists>w'. emplace U T args this w = Returned () w' \<and>
               trace w' = trace w @ evs @
                 (case pIObject w this of None \<Rightarrow> [] | Some old \<Rightarrow> [Deleted old]) \<and>
               pIObject w' this = Some (next_addr w) \<and>
               heap w' (next_addr w) = Some \<lparr>TObject = T, Object_m = v\<rparr> \<and>
               (\<forall>old. pIObject w this = Some old \<longrightarrow> heap w' old = None)))"
proof (intro conjI impI)
  show "(emplace U T args this w = Threw e w') =
           (\<not> is_array (canon T) \<and> keeper_move_arg T args = None \<and>
            T_ctor U T args = Inl e \<and> w' = w)"
    by (simp add: emplace_Threw make_unique_Threw CObjectStored_ctor_threw_iff)
next
  assume a: "\<not> is_array (canon T) \<and> keeper_move_arg T args \<noteq> None \<and> T_ctor U T args = Inl e"
  then have "CObjectStored_ctor U T args = Ctor_terminated"
    by (simp add: CObjectStored_ctor_class)
  then show "emplace U T args this w = Terminated"
    by (rule emplace_Ctor_terminated)
next
  assume "\<not> is_array (canon T) \<and> T_ctor U T args = Inr v"
  then show "CObjectStored_ctor U T args = Built v [Created T]"
    by (simp add: CObjectStored_ctor_class)
next
  assume b: "CObjectStored_ctor U T args = Built v evs"
  let ?w1 = "w\<lparr>heap := (heap w)(next_addr w \<mapsto> \<lparr>TObject = T, Object_m = v\<rparr>),
          next_addr := Suc (next_addr w), trace := trace w @ evs\<rparr>"
  let ?w' = "unique_ptr_reset this (Some (next_addr w)) ?w1"
  have 1: "emplace U T args this w = Returned () ?w'"
    by (rule emplace_Built [OF b])
  have 2: "trace ?w' = trace w @ evs @
                 (case pIObject w this of None \<Rightarrow> [] | Some old \<Rightarrow> [Deleted old])"
    by simp
  have 3: "pIObject ?w' this = Some (next_addr w)" by simp
  have 4: "heap ?w' (next_addr w) = Some \<lparr>TObject = T, Object_m = v\<rparr>"
    by (rule heap_reset_fresh [OF assms])
  have 5: "\<forall>old. pIObject w this = Some old \<longrightarrow> heap ?w' old = None"
    by (simp add: heap_reset)
  from 1 2 3 4 5
  show "\<exists>w'. emplace U T args this w = Returned () w' \<and>
               trace w' = trace w @ evs @
                 (case pIObject w this of None \<Rightarrow> [] | Some old \<Rightarrow> [Deleted old]) \<and>
               pIObject w' this = Some (next_addr w) \<and>
               heap w' (next_addr w) = Some \<lparr>TObject = T, Object_m = v\<rparr> \<and>
               (\<forall>old. pIObject w this = Some old \<longrightarrow> heap w' old = None)"
    by blast
qed

theorem emplace_constructs_then_releases_witness:
  "wf_world two_world \<and> 0 \<in> alive two_world \<and>
   T_ctor sample (Named ''Throwing'') [] = Inl (Exception ''constructor failed'') \<and>
   emplace sample (Named ''Throwing'') [] 0 two_world =
     Threw (Exception ''constructor failed'') two_world \<and>
   T_ctor sample (Named ''Throwing'') [\<lparr>ty = Named ''Throwing'', cat = Rvalue, val = Atom 1\<rparr>] =
     Inl (Exception ''constructor failed'') \<and>
   emplace sample (Named ''Throwing'') [\<lparr>ty = Named ''Throwing'', cat = Rvalue, val = Atom 1\<rparr>]
     0 two_world = Terminated \<and>
   T_ctor sample (Named ''int'') [int_expr Lvalue 9] = Inr (Atom 9) \<and>
   (\<exists>w'. emplace sample (Named ''int'') [int_expr Lvalue 9] 0 two_world = Returned () w' \<and>
      trace w' = [Created (Named ''int''), Created (Named ''int''), Created (Named ''int''), Deleted 0] \<and>
      pIObject w' 0 = Some 2 \<and>
      heap w' 2 = Some \<lparr>TObject = Named ''int'', Object_m = Atom 9\<rparr> \<and>
      heap w' 0 = None)"
proof -
  let ?thr = "\<lparr>ty = Named ''Throwing'', cat = Rvalue, val = Atom (1::int)\<rparr>"
  have a: "0 \<in> alive two_world" by simp
  have t: "T_ctor sample (Named ''Throwing'') [] = Inl (Exception ''constructor failed'')"
    "T_ctor sample (Named ''Throwing'') [?thr] = Inl (Exception ''constructor failed'')"
    "T_ctor sample (Named ''int'') [int_expr Lvalue 9] = Inr (Atom 9)"
    by (simp_all add: sample_ctor_def)
  have k: "\<not> is_array (canon (Named ''Throwing''))" "\<not> is_array (canon (Named ''int''))"
    "keeper_move_arg (Named ''Throwing'') ([] :: int expr list) = None"
    "keeper_move_arg (Named ''Throwing'') [?thr] \<noteq> None"
    by simp_all
  from emplace_constructs_then_releases [OF wf_two_world a, of sample "Named ''Throwing''" "[]"
      "Exception ''constructor failed''" two_world] t(1) k(1,3)
  have 1: "emplace sample (Named ''Throwing'') [] 0 two_world =
             Threw (Exception ''constructor failed'') two_world"
    by simp
  from emplace_constructs_then_releases [OF wf_two_world a, of sample "Named ''Throwing''" "[?thr]"
      "Exception ''constructor failed''"] t(2) k(1,4)
  have 2: "emplace sample (Named ''Throwing'') [?thr] 0 two_world = Terminated"
    by blast
  note i = emplace_constructs_then_releases [OF wf_two_world a, of sample "Named ''int''"
      "[int_expr Lvalue 9]" _ _ "Atom 9" "[Created (Named ''int'')]"]
  from i t(3) k(2)
  have b: "CObjectStored_ctor sample (Named ''int'') [int_expr Lvalue 9] =
             Built (Atom 9) [Created (Named ''int'')]"
    by blast
  from i b
  have 3: "\<exists>w'. emplace sample (Named ''int'') [int_expr Lvalue 9] 0 two_world = Returned () w' \<and>
      trace w' = [Created (Named ''int''), Created (Named ''int''), Created (Named ''int''), Deleted 0] \<and>
      pIObject w' 0 = Some 2 \<and>
      heap w' 2 = Some \<lparr>TObject = Named ''int'', Object_m = Atom 9\<rparr> \<and>
      heap w' 0 = None"
    by simp
  from wf_two_world a t 1 2 3 show ?thesis by blast
qed


subsection \<open>C2: the stored type of the value constructor\<close>

text \<open>
  C2 says that the value constructor stores the decayed type of its argument, without
  const for a const lvalue. The code (lines 103-104, 110) strips the reference and
  nothing else: for a const lvalue of type \<^verbatim>\<open>const int\<close> the stored type is
  \<^verbatim>\<open>const int\<close>, where \<^verbatim>\<open>std::decay_t\<close> gives \<^verbatim>\<open>int\<close>; for an rvalue array
  \<^verbatim>\<open>const char[4]\<close> (line 80 of the usage notes) the stored type is the array, where
  \<^verbatim>\<open>std::decay_t\<close> gives a pointer.
\<close>

theorem stored_type_decay_counterexample:
  "value_ctor_stored_type (Const (Named ''int'')) Lvalue = Const (Named ''int'') \<and>
   spec_decay_t (deduce_forwarding (Const (Named ''int'')) Lvalue) = Named ''int'' \<and>
   value_ctor_stored_type (Const (Named ''int'')) Lvalue \<noteq>
     spec_decay_t (deduce_forwarding (Const (Named ''int'')) Lvalue) \<and>
   is_const (value_ctor_stored_type (Const (Named ''int'')) Lvalue) \<and>
   value_ctor_stored_type (Array (Const (Named ''char'')) 4) Rvalue = Array (Const (Named ''char'')) 4 \<and>
   spec_decay_t (deduce_forwarding (Array (Const (Named ''char'')) 4) Rvalue) =
     Pointer (Const (Named ''char''))"
  by (simp add: value_ctor_stored_type_def CObjType_def)

text \<open>
  C2 as amended: the stored type is \<^verbatim>\<open>std::remove_reference_t\<close> of the deduced parameter,
  that is the type of the argument itself: the top-level const is kept, an array stays
  an array, and lvalue and rvalue arguments of the same type give the same stored type.
\<close>

theorem stored_type_is_remove_reference:
  "value_ctor_stored_type U c = remove_reference_t (deduce_forwarding U c) \<and>
   value_ctor_stored_type U c = U \<and>
   value_ctor_stored_type U Lvalue = value_ctor_stored_type U Rvalue \<and>
   is_const (value_ctor_stored_type U c) = is_const U"
  by (cases c) (simp_all add: value_ctor_stored_type_def CObjType_def)


subsection \<open>C3: in-place construction makes one object\<close>

text \<open>
  C3: for every target type \<open>T\<close> and argument list, tagged in-place construction and
  \<^verbatim>\<open>emplace<T>(args...)\<close>, when they return, have created exactly one object of type
  \<open>T\<close>, which is the one the container now holds; for a class type its value is what
  the constructor of \<open>T\<close> made of the arguments themselves, so no temporary \<open>T\<close> stood
  in between.
\<close>

theorem in_place_constructs_once:
  "(CAnyMovable_in_place U T args this w = Returned () w' \<longrightarrow>
      count_created T (new_events w w') = 1 \<and>
      pIObject w' this = Some (next_addr w) \<and>
      (\<exists>k. heap w' (next_addr w) = Some k \<and> TObject k = T \<and>
           (\<not> is_array (canon T) \<longrightarrow> T_ctor U T args = Inr (Object k)))) \<and>
   (wf_world w \<and> this \<in> alive w \<and> emplace U T args this w = Returned () w' \<longrightarrow>
      count_created T (new_events w w') = 1 \<and>
      pIObject w' this = Some (next_addr w) \<and>
      (\<exists>k. heap w' (next_addr w) = Some k \<and> TObject k = T \<and>
           (\<not> is_array (canon T) \<longrightarrow> T_ctor U T args = Inr (Object k))))"
proof (intro conjI impI)
  assume r: "CAnyMovable_in_place U T args this w = Returned () w'"
  then obtain a w1 where m: "make_unique U T args w = Returned a w1"
    and w': "w' = set_pIObject this (Some a) w1"
    unfolding CAnyMovable_in_place_Returned by blast
  from m obtain v evs where b: "CObjectStored_ctor U T args = Built v evs"
    and a: "a = next_addr w"
    and w1: "w1 = w\<lparr>heap := (heap w)(next_addr w \<mapsto> \<lparr>TObject = T, Object_m = v\<rparr>),
             next_addr := Suc (next_addr w), trace := trace w @ evs\<rparr>"
    unfolding make_unique_Returned by blast
  show "count_created T (new_events w w') = 1"
    using CObjectStored_ctor_count [OF b] by (simp add: new_events_def w' w1)
  show "pIObject w' this = Some (next_addr w)" by (simp add: w' a)
  show "\<exists>k. heap w' (next_addr w) = Some k \<and> TObject k = T \<and>
           (\<not> is_array (canon T) \<longrightarrow> T_ctor U T args = Inr (Object k))"
    using CObjectStored_ctor_value [OF b] by (simp add: w' w1 Object_def)
next
  assume "wf_world w \<and> this \<in> alive w \<and> emplace U T args this w = Returned () w'"
  then have wf: "wf_world w" and al: "this \<in> alive w"
    and r: "emplace U T args this w = Returned () w'" by simp_all
  from r obtain a w1 where m: "make_unique U T args w = Returned a w1"
    and w': "w' = unique_ptr_reset this (Some a) w1"
    unfolding emplace_Returned by blast
  from m obtain v evs where b: "CObjectStored_ctor U T args = Built v evs"
    and a: "a = next_addr w"
    and w1: "w1 = w\<lparr>heap := (heap w)(next_addr w \<mapsto> \<lparr>TObject = T, Object_m = v\<rparr>),
             next_addr := Suc (next_addr w), trace := trace w @ evs\<rparr>"
    unfolding make_unique_Returned by blast
  have fresh: "pIObject w this \<noteq> Some (next_addr w)" using wf_fresh [OF wf al] .
  show "count_created T (new_events w w') = 1"
    using CObjectStored_ctor_count [OF b]
    by (cases "pIObject w this") (simp_all add: new_events_def w' w1)
  show "pIObject w' this = Some (next_addr w)" by (simp add: w' a)
  show "\<exists>k. heap w' (next_addr w) = Some k \<and> TObject k = T \<and>
           (\<not> is_array (canon T) \<longrightarrow> T_ctor U T args = Inr (Object k))"
    using CObjectStored_ctor_value [OF b] fresh
    by (cases "pIObject w this") (simp_all add: w' w1 Object_def heap_reset)
qed

theorem in_place_constructs_once_witness:
  "(\<exists>w'. CAnyMovable_in_place sample (Named ''int'') [int_expr Lvalue 9] 2 two_world = Returned () w' \<and>
      count_created (Named ''int'') (new_events two_world w') = 1 \<and>
      pIObject w' 2 = Some 2 \<and>
      (\<exists>k. heap w' 2 = Some k \<and> TObject k = Named ''int'' \<and> Object k = Atom 9)) \<and>
   wf_world two_world \<and> 0 \<in> alive two_world \<and>
   (\<exists>w'. emplace sample (Named ''int'') [int_expr Lvalue 9] 0 two_world = Returned () w' \<and>
      count_created (Named ''int'') (new_events two_world w') = 1 \<and>
      pIObject w' 0 = Some 2 \<and>
      (\<exists>k. heap w' 2 = Some k \<and> TObject k = Named ''int'' \<and> Object k = Atom 9))"
proof -
  have b: "CObjectStored_ctor sample (Named ''int'') [int_expr Lvalue 9] = Built (Atom 9) [Created (Named ''int'')]"
    by (simp add: CObjectStored_ctor_def CObjectKeeper_args_def sample_ctor_def)
  have c: "T_ctor sample (Named ''int'') [int_expr Lvalue 9] = Inr (Atom 9)"
    by (simp add: sample_ctor_def)
  have n: "\<not> is_array (canon (Named ''int''))" by simp
  obtain w1 where 1: "CAnyMovable_in_place sample (Named ''int'') [int_expr Lvalue 9] 2 two_world = Returned () w1"
    by (simp add: CAnyMovable_in_place_def make_unique_Built [OF b])
  obtain w2 where 2: "emplace sample (Named ''int'') [int_expr Lvalue 9] 0 two_world = Returned () w2"
    by (simp add: emplace_def make_unique_Built [OF b])
  have a: "0 \<in> alive two_world" by simp
  from in_place_constructs_once [of sample "Named ''int''" "[int_expr Lvalue 9]" 2 two_world w1] 1 c n
  have 3: "count_created (Named ''int'') (new_events two_world w1) = 1 \<and>
      pIObject w1 2 = Some 2 \<and>
      (\<exists>k. heap w1 2 = Some k \<and> TObject k = Named ''int'' \<and> Object k = Atom 9)"
    by auto
  from in_place_constructs_once [of sample "Named ''int''" "[int_expr Lvalue 9]" 0 two_world w2]
    2 c n a wf_two_world
  have 4: "count_created (Named ''int'') (new_events two_world w2) = 1 \<and>
      pIObject w2 0 = Some 2 \<and>
      (\<exists>k. heap w2 2 = Some k \<and> TObject k = Named ''int'' \<and> Object k = Atom 9)"
    by auto
  from 1 2 3 4 a wf_two_world show ?thesis by blast
qed


subsection \<open>C4: arrays are moved element by element\<close>

text \<open>
  C4: let an rvalue array \<open>a0, ..., a(n-1)\<close> (of at least one element, with elements
  that are not arrays) be given to the value constructor. If the move constructor of the
  element type makes \<open>vi\<close> of \<open>ai\<close> for every \<open>i\<close>, the constructor returns and the
  specialisation of lines 194-223 has stored exactly \<open>v0, ..., v(n-1)\<close>: element \<open>i\<close> of
  the stored array is made by one constructor call on element \<open>i\<close> of the source, for the
  indices \<open>0, ..., n - 1\<close> of \<^verbatim>\<open>std::make_integer_sequence\<close> in this order, and \<open>n\<close>
  elements and then the array have been created. So when the move constructor makes an
  equal element, the array read back through \<^verbatim>\<open>Object()\<close> is \<open>a0, ..., a(n-1)\<close>.
  Conversely, whenever the constructor returns, the stored elements are what the move
  constructor made of the source elements, index by index; and when the move constructor
  throws on some element, the \<^verbatim>\<open>noexcept\<close> of lines 200 and 217 ends the program.
\<close>

theorem array_round_trip:
  assumes "canon (ty x) = Array E n" and "0 < n" and "\<not> is_array E" and "cat x = Rvalue"
    and "val x = Elems xs" and "length xs = n"
  shows "(length vs = n \<and>
          (\<forall>i<n. T_ctor U E [\<lparr>ty = E, cat = Rvalue, val = xs ! i\<rparr>] = Inr (vs ! i)) \<longrightarrow>
            (\<exists>w'. CAnyMovable_value U x this w = Returned () w' \<and>
               pIObject w' this = Some (next_addr w) \<and>
               (\<exists>k. heap w' (next_addr w) = Some k \<and> TObject k = ty x \<and> Object k = Elems vs) \<and>
               new_events w w' = map (\<lambda>i. Created E) [0..<n] @ [Created (ty x)] \<and>
               move_elements U E xs (make_integer_sequence n) = Some vs)) \<and>
         ((\<forall>i<n. T_ctor U E [\<lparr>ty = E, cat = Rvalue, val = xs ! i\<rparr>] = Inr (xs ! i)) \<longrightarrow>
            (\<exists>w'. CAnyMovable_value U x this w = Returned () w' \<and>
               pIObject w' this = Some (next_addr w) \<and>
               (\<exists>k. heap w' (next_addr w) = Some k \<and> TObject k = ty x \<and> Object k = Elems xs))) \<and>
         (CAnyMovable_value U x this w = Returned () w' \<longrightarrow>
            (\<exists>ys k. length ys = n \<and>
               (\<forall>i<n. T_ctor U E [\<lparr>ty = E, cat = Rvalue, val = xs ! i\<rparr>] = Inr (ys ! i)) \<and>
               heap w' (next_addr w) = Some k \<and> Object k = Elems ys)) \<and>
         (i < n \<and> T_ctor U E [\<lparr>ty = E, cat = Rvalue, val = xs ! i\<rparr>] = Inl e \<longrightarrow>
            CAnyMovable_value U x this w = Terminated)"
proof -
  have arg: "keeper_array_arg (ty x) [x] = Some x"
    using assms(4) by simp
  have ctor: "CObjectStored_ctor U (ty x) [x] = CObjectKeeper_array U (ty x) E n x"
    using assms(2) unfolding CObjectStored_ctor_array [OF assms(1)] arg by simp
  have stored: "\<exists>w'. CAnyMovable_value U x this w = Returned () w' \<and>
               pIObject w' this = Some (next_addr w) \<and>
               (\<exists>k. heap w' (next_addr w) = Some k \<and> TObject k = ty x \<and> Object k = Elems ys) \<and>
               new_events w w' = map (\<lambda>i. Created E) [0..<n] @ [Created (ty x)] \<and>
               move_elements U E xs (make_integer_sequence n) = Some ys"
    if len: "length ys = n"
      and el: "\<forall>i<n. T_ctor U E [\<lparr>ty = E, cat = Rvalue, val = xs ! i\<rparr>] = Inr (ys ! i)" for ys
  proof -
    have m: "move_elements U E xs (make_integer_sequence n) = Some ys"
      by (rule move_elements_sequence [OF assms(6) len el])
    have b: "CObjectStored_ctor U (ty x) [x] =
               Built (Elems ys) (map (\<lambda>i. Created E) [0..<n] @ [Created (ty x)])"
      unfolding ctor by (rule CObjectKeeper_array_results [OF assms(5,6) len assms(3) el])
    let ?w' = "set_pIObject this (Some (next_addr w))
        (w\<lparr>heap := (heap w)(next_addr w \<mapsto> \<lparr>TObject = ty x, Object_m = Elems ys\<rparr>),
           next_addr := Suc (next_addr w),
           trace := trace w @ map (\<lambda>i. Created E) [0..<n] @ [Created (ty x)]\<rparr>)"
    have 1: "CAnyMovable_value U x this w = Returned () ?w'"
      by (simp add: CAnyMovable_value_def make_unique_Built [OF b])
    have 2: "pIObject ?w' this = Some (next_addr w)" by simp
    have 3: "\<exists>k. heap ?w' (next_addr w) = Some k \<and> TObject k = ty x \<and> Object k = Elems ys"
      by (simp add: Object_def)
    have 4: "new_events w ?w' = map (\<lambda>i. Created E) [0..<n] @ [Created (ty x)]"
      by (simp add: new_events_def)
    from 1 2 3 4 m show ?thesis by blast
  qed
  have A: "length vs = n \<and>
          (\<forall>i<n. T_ctor U E [\<lparr>ty = E, cat = Rvalue, val = xs ! i\<rparr>] = Inr (vs ! i)) \<longrightarrow>
            (\<exists>w'. CAnyMovable_value U x this w = Returned () w' \<and>
               pIObject w' this = Some (next_addr w) \<and>
               (\<exists>k. heap w' (next_addr w) = Some k \<and> TObject k = ty x \<and> Object k = Elems vs) \<and>
               new_events w w' = map (\<lambda>i. Created E) [0..<n] @ [Created (ty x)] \<and>
               move_elements U E xs (make_integer_sequence n) = Some vs)"
    using stored [of vs] by blast
  have B: "(\<forall>i<n. T_ctor U E [\<lparr>ty = E, cat = Rvalue, val = xs ! i\<rparr>] = Inr (xs ! i)) \<longrightarrow>
            (\<exists>w'. CAnyMovable_value U x this w = Returned () w' \<and>
               pIObject w' this = Some (next_addr w) \<and>
               (\<exists>k. heap w' (next_addr w) = Some k \<and> TObject k = ty x \<and> Object k = Elems xs))"
    using stored [of xs] assms(6) by blast
  have C: "CAnyMovable_value U x this w = Returned () w' \<longrightarrow>
            (\<exists>ys k. length ys = n \<and>
               (\<forall>i<n. T_ctor U E [\<lparr>ty = E, cat = Rvalue, val = xs ! i\<rparr>] = Inr (ys ! i)) \<and>
               heap w' (next_addr w) = Some k \<and> Object k = Elems ys)"
  proof
    assume "CAnyMovable_value U x this w = Returned () w'"
    then obtain a w1 where m: "make_unique U (ty x) [x] w = Returned a w1"
      and w': "w' = set_pIObject this (Some a) w1"
      unfolding CAnyMovable_value_Returned by blast
    from m obtain v evs where b: "CObjectStored_ctor U (ty x) [x] = Built v evs"
      and w1: "w1 = w\<lparr>heap := (heap w)(next_addr w \<mapsto> \<lparr>TObject = ty x, Object_m = v\<rparr>),
             next_addr := Suc (next_addr w), trace := trace w @ evs\<rparr>"
      unfolding make_unique_Returned by blast
    from b have "CObjectKeeper_array U (ty x) E n x = Built v evs" by (simp only: ctor)
    from CObjectKeeper_array_Built_elements [OF this assms(5)] obtain ys
      where ys: "v = Elems ys" "length ys = n"
        "\<forall>i<n. T_ctor U E [\<lparr>ty = E, cat = Rvalue, val = xs ! i\<rparr>] = Inr (ys ! i)"
      by blast
    have "heap w' (next_addr w) = Some \<lparr>TObject = ty x, Object_m = Elems ys\<rparr>"
      by (simp add: w' w1 ys(1))
    moreover have "Object \<lparr>TObject = ty x, Object_m = Elems ys\<rparr> = Elems ys"
      by (simp add: Object_def)
    ultimately show "\<exists>ys k. length ys = n \<and>
               (\<forall>i<n. T_ctor U E [\<lparr>ty = E, cat = Rvalue, val = xs ! i\<rparr>] = Inr (ys ! i)) \<and>
               heap w' (next_addr w) = Some k \<and> Object k = Elems ys"
      using ys(2,3) by blast
  qed
  have D: "i < n \<and> T_ctor U E [\<lparr>ty = E, cat = Rvalue, val = xs ! i\<rparr>] = Inl e \<longrightarrow>
            CAnyMovable_value U x this w = Terminated"
  proof
    assume "i < n \<and> T_ctor U E [\<lparr>ty = E, cat = Rvalue, val = xs ! i\<rparr>] = Inl e"
    then have "CObjectKeeper_array U (ty x) E n x = Ctor_terminated"
      using CObjectKeeper_array_element_throws [OF assms(5,6,3)] by blast
    then show "CAnyMovable_value U x this w = Terminated"
      by (simp add: CAnyMovable_value_def make_unique_def ctor)
  qed
  from A B C D show ?thesis by blast
qed

theorem array_round_trip_witness:
  "(\<exists>w'. CAnyMovable_value sample
           \<lparr>ty = Array (Named ''int'') 3, cat = Rvalue, val = Elems [Atom 10, Atom 20, Atom 30]\<rparr>
           0 init_world = Returned () w' \<and>
         pIObject w' 0 = Some 0 \<and>
         (\<exists>k. heap w' 0 = Some k \<and> TObject k = Array (Named ''int'') 3 \<and>
              Object k = Elems [Atom 10, Atom 20, Atom 30])) \<and>
   (\<exists>w'. CAnyMovable_value stepping
           \<lparr>ty = Array (Named ''int'') 3, cat = Rvalue, val = Elems [Atom 10, Atom 20, Atom 30]\<rparr>
           0 init_world = Returned () w' \<and>
         pIObject w' 0 = Some 0 \<and>
         (\<exists>k. heap w' 0 = Some k \<and> TObject k = Array (Named ''int'') 3 \<and>
              Object k = Elems [Atom 11, Atom 21, Atom 31]) \<and>
         new_events init_world w' =
           [Created (Named ''int''), Created (Named ''int''), Created (Named ''int''),
            Created (Array (Named ''int'') 3)])"
proof -
  let ?x = "\<lparr>ty = Array (Named ''int'') 3, cat = Rvalue, val = Elems [Atom 10, Atom 20, Atom (30::int)]\<rparr>"
  have n: "next_addr (init_world :: int world) = 0" by (simp add: init_world_def)
  have c: "canon (ty ?x) = Array (Named ''int'') 3" "(0::nat) < 3" "\<not> is_array (Named ''int'')"
    "cat ?x = Rvalue" "val ?x = Elems [Atom 10, Atom 20, Atom 30]"
    "length [Atom 10, Atom 20, Atom (30::int)] = 3"
    by simp_all
  have l: "length [Atom 11, Atom 21, Atom (31::int)] = 3" by simp
  have e1: "\<forall>i<3. T_ctor sample (Named ''int'')
              [\<lparr>ty = Named ''int'', cat = Rvalue, val = [Atom 10, Atom 20, Atom 30] ! i\<rparr>] =
            Inr ([Atom 10, Atom 20, Atom 30] ! i)"
    by (simp add: sample_ctor_def)
  have e2: "\<forall>i<3. T_ctor stepping (Named ''int'')
              [\<lparr>ty = Named ''int'', cat = Rvalue, val = [Atom 10, Atom 20, Atom 30] ! i\<rparr>] =
            Inr ([Atom 11, Atom 21, Atom 31] ! i)"
    by (simp add: stepping_def stepping_ctor_def less_Suc_eq numeral_3_eq_3)
  from array_round_trip [OF c, of "[Atom 10, Atom 20, Atom 30]" sample 0 init_world] e1
  have 1: "\<exists>w'. CAnyMovable_value sample ?x 0 init_world = Returned () w' \<and>
         pIObject w' 0 = Some 0 \<and>
         (\<exists>k. heap w' 0 = Some k \<and> TObject k = Array (Named ''int'') 3 \<and>
              Object k = Elems [Atom 10, Atom 20, Atom 30])"
    unfolding n by simp
  from array_round_trip [OF c, of "[Atom 11, Atom 21, Atom 31]" stepping 0 init_world] l e2
  have 2: "\<exists>w'. CAnyMovable_value stepping ?x 0 init_world = Returned () w' \<and>
         pIObject w' 0 = Some 0 \<and>
         (\<exists>k. heap w' 0 = Some k \<and> TObject k = Array (Named ''int'') 3 \<and>
              Object k = Elems [Atom 11, Atom 21, Atom 31]) \<and>
         new_events init_world w' =
           [Created (Named ''int''), Created (Named ''int''), Created (Named ''int''),
            Created (Array (Named ''int'') 3)]"
    unfolding n by (simp add: upt_rec numeral_3_eq_3) blast
  from 1 2 show ?thesis by blast
qed


subsection \<open>C5: moving a container\<close>

text \<open>
  C5: moving a non-empty container \<open>Other\<close> into another container \<open>this\<close>, by move
  construction or by move assignment, leaves \<open>Other\<close> empty and \<open>this\<close> non-empty,
  holding the very address \<open>Other\<close> held; the object at that address is untouched, no
  object is created, and a call through \<open>this\<close> returns what the call through \<open>Other\<close>
  returned before. Move assignment deletes what \<open>this\<close> held before and nothing else.
\<close>

theorem move_transfers_ownership:
  assumes "wf_world w" and "Other \<in> alive w" and "this \<noteq> Other" and "isDefined Other w"
  shows "\<not> isDefined Other (CAnyMovable_move this Other w) \<and>
         isDefined this (CAnyMovable_move this Other w) \<and>
         pIObject (CAnyMovable_move this Other w) this = pIObject w Other \<and>
         heap (CAnyMovable_move this Other w) = heap w \<and>
         trace (CAnyMovable_move this Other w) = trace w \<and>
         returned (invoke U m (operator_arrow this (CAnyMovable_move this Other w))
                     (CAnyMovable_move this Other w)) =
           returned (invoke U m (operator_arrow Other w) w) \<and>
         (this \<in> alive w \<longrightarrow>
            \<not> isDefined Other (move_assign this Other w) \<and>
            isDefined this (move_assign this Other w) \<and>
            pIObject (move_assign this Other w) this = pIObject w Other \<and>
            (\<forall>a. pIObject w Other = Some a \<longrightarrow> heap (move_assign this Other w) a = heap w a) \<and>
            dom (heap (move_assign this Other w)) = dom (heap w) - set_option (pIObject w this) \<and>
            count_created T (new_events w (move_assign this Other w)) = 0 \<and>
            returned (invoke U m (operator_arrow this (move_assign this Other w))
                        (move_assign this Other w)) =
              returned (invoke U m (operator_arrow Other w) w))"
proof -
  from assms(4) obtain a where a: "pIObject w Other = Some a"
    by (auto simp add: isDefined_iff)
  let ?c = "CAnyMovable_move this Other w"
  have c1: "pIObject ?c Other = None" "pIObject ?c this = Some a" "heap ?c = heap w"
    "trace ?c = trace w"
    using assms(3) a by (simp_all add: CAnyMovable_move_def)
  have c2: "returned (invoke U m (operator_arrow this ?c) ?c) =
            returned (invoke U m (operator_arrow Other w) w)"
    by (rule invoke_depends) (simp_all add: c1 a)
  let ?m = "move_assign this Other w"
  have m1: "pIObject ?m Other = None" "pIObject ?m this = Some a"
    "dom (heap ?m) = dom (heap w) - set_option (pIObject w this)"
    "count_created T (new_events w ?m) = 0"
    using assms(3) a by (simp_all add: move_assign_def)
  have m2: "heap ?m a = heap w a" if "this \<in> alive w"
  proof -
    have "pIObject w this \<noteq> Some a"
      using wf_excl [OF assms(1) that assms(2) _ a] assms(3) by blast
    then show ?thesis
      using assms(3) by (cases "pIObject w this") (simp_all add: move_assign_def heap_reset)
  qed
  have m3: "returned (invoke U m (operator_arrow this ?m) ?m) =
            returned (invoke U m (operator_arrow Other w) w)" if "this \<in> alive w"
    by (rule invoke_depends) (simp_all add: m1 a m2 [OF that])
  from c1 c2 m1 m2 m3 a show ?thesis
    by (simp add: isDefined_iff)
qed

theorem move_transfers_ownership_witness:
  "wf_world two_world \<and> 1 \<in> alive two_world \<and> (0::nat) \<noteq> 1 \<and> (2::nat) \<noteq> 1 \<and>
   isDefined 1 two_world \<and> 0 \<in> alive two_world \<and>
   \<not> isDefined 1 (CAnyMovable_move 2 1 two_world) \<and>
   isDefined 2 (CAnyMovable_move 2 1 two_world) \<and>
   returned (invoke sample Get (operator_arrow 2 (CAnyMovable_move 2 1 two_world))
               (CAnyMovable_move 2 1 two_world)) = Some 7 \<and>
   \<not> isDefined 1 (move_assign 0 1 two_world) \<and>
   isDefined 0 (move_assign 0 1 two_world) \<and>
   dom (heap (move_assign 0 1 two_world)) = {1} \<and>
   returned (invoke sample Get (operator_arrow 0 (move_assign 0 1 two_world))
               (move_assign 0 1 two_world)) = Some 7"
proof -
  have d: "isDefined 1 two_world" by (simp add: isDefined_iff)
  have a: "1 \<in> alive two_world" "0 \<in> alive two_world" by simp_all
  have g: "returned (invoke sample Get (operator_arrow 1 two_world) two_world) = Some 7"
    by (simp add: invoke_def Object_def)
  have s: "dom (heap two_world) - set_option (pIObject two_world 0) = {1}"
    by auto
  from move_transfers_ownership [OF wf_two_world a(1) _ d, of 2 sample Get]
  have 1: "\<not> isDefined 1 (CAnyMovable_move 2 1 two_world) \<and>
   isDefined 2 (CAnyMovable_move 2 1 two_world) \<and>
   returned (invoke sample Get (operator_arrow 2 (CAnyMovable_move 2 1 two_world))
               (CAnyMovable_move 2 1 two_world)) = Some 7"
    unfolding g by simp
  from move_transfers_ownership [OF wf_two_world a(1) _ d, of 0 sample Get] a(2)
  have 2: "\<not> isDefined 1 (move_assign 0 1 two_world) \<and>
   isDefined 0 (move_assign 0 1 two_world) \<and>
   dom (heap (move_assign 0 1 two_world)) = {1} \<and>
   returned (invoke sample Get (operator_arrow 0 (move_assign 0 1 two_world))
               (move_assign 0 1 two_world)) = Some 7"
    unfolding g s by simp
  from 1 2 d a wf_two_world show ?thesis by simp
qed


subsection \<open>C6: a container made from a value\<close>

text \<open>
  C6: let \<open>V\<close> be a value that the header can store and whose class copies and moves
  faithfully (\<open>faithful_copy\<close>: for a class type the copy or move constructor selected for
  \<open>V\<close> makes an equal value; an array is an rvalue of at least one element whose elements
  are not arrays, and the move constructor of its element type makes equal elements).
  Then the value constructor returns, the container is defined, and every call through
  \<^verbatim>\<open>operator->\<close> returns what the implementation for the type of \<open>V\<close> returns on the
  value of \<open>V\<close>, and leaves in the stored object what that implementation leaves.
\<close>

theorem value_ctor_dispatch:
  assumes "faithful_copy U V"
  shows "\<exists>w'. CAnyMovable_value U V this w = Returned () w' \<and> isDefined this w' \<and>
           (\<forall>m. invoke U m (operator_arrow this w') w' =
              Returned (fst (TImplementation U (ty V) m (val V)))
                (w'\<lparr>heap := (heap w')(next_addr w \<mapsto>
                    \<lparr>TObject = ty V, Object_m = snd (TImplementation U (ty V) m (val V))\<rparr>)\<rparr>))"
proof -
  from faithful_copy_Built [OF assms] obtain evs
    where b: "CObjectStored_ctor U (ty V) [V] = Built (val V) evs" by blast
  let ?w' = "set_pIObject this (Some (next_addr w))
      (w\<lparr>heap := (heap w)(next_addr w \<mapsto> \<lparr>TObject = ty V, Object_m = val V\<rparr>),
         next_addr := Suc (next_addr w), trace := trace w @ evs\<rparr>)"
  have 1: "CAnyMovable_value U V this w = Returned () ?w'"
    by (simp add: CAnyMovable_value_def make_unique_Built [OF b])
  have 2: "isDefined this ?w'" by (simp add: isDefined_iff)
  have 3: "invoke U m (operator_arrow this ?w') ?w' =
              Returned (fst (TImplementation U (ty V) m (val V)))
                (?w'\<lparr>heap := (heap ?w')(next_addr w \<mapsto>
                    \<lparr>TObject = ty V, Object_m = snd (TImplementation U (ty V) m (val V))\<rparr>)\<rparr>)" for m
    by (subst invoke_live [where a = "next_addr w" and k = "\<lparr>TObject = ty V, Object_m = val V\<rparr>"])
      (simp_all add: Object_def)
  from 1 2 3 show ?thesis by blast
qed

theorem value_ctor_dispatch_witness:
  "faithful_copy sample (int_expr Lvalue 5) \<and>
   (\<exists>w'. CAnyMovable_value sample (int_expr Lvalue 5) 0 init_world = Returned () w' \<and>
      isDefined 0 w' \<and>
      returned (invoke sample Get (operator_arrow 0 w') w') = Some 5 \<and>
      returned (invoke sample Increment (operator_arrow 0 w') w') = Some 6) \<and>
   faithful_copy sample
     \<lparr>ty = Array (Named ''int'') 2, cat = Rvalue, val = Elems [Atom 1, Atom 2]\<rparr> \<and>
   (\<exists>w'. CAnyMovable_value sample
            \<lparr>ty = Array (Named ''int'') 2, cat = Rvalue, val = Elems [Atom 1, Atom 2]\<rparr>
            0 init_world = Returned () w' \<and>
      isDefined 0 w' \<and>
      returned (invoke sample Get (operator_arrow 0 w') w') = Some 2)"
proof -
  have f: "faithful_copy sample (int_expr Lvalue 5)"
    by (simp add: faithful_copy_def sample_ctor_def)
  have g: "faithful_copy sample
     \<lparr>ty = Array (Named ''int'') 2, cat = Rvalue, val = Elems [Atom 1, Atom 2]\<rparr>"
    by (simp add: faithful_copy_def sample_ctor_def)
  from value_ctor_dispatch [OF f, of 0 init_world]
  have 1: "\<exists>w'. CAnyMovable_value sample (int_expr Lvalue 5) 0 init_world = Returned () w' \<and>
      isDefined 0 w' \<and>
      returned (invoke sample Get (operator_arrow 0 w') w') = Some 5 \<and>
      returned (invoke sample Increment (operator_arrow 0 w') w') = Some 6"
    by auto
  from value_ctor_dispatch [OF g, of 0 init_world]
  have 2: "\<exists>w'. CAnyMovable_value sample
            \<lparr>ty = Array (Named ''int'') 2, cat = Rvalue, val = Elems [Atom 1, Atom 2]\<rparr>
            0 init_world = Returned () w' \<and>
      isDefined 0 w' \<and>
      returned (invoke sample Get (operator_arrow 0 w') w') = Some 2"
    by auto
  from f g 1 2 show ?thesis by blast
qed


subsection \<open>C7: clear\<close>

text \<open>
  C7: \<^verbatim>\<open>clear()\<close> on a non-empty container makes it empty and deletes the object it
  held; on an empty container it changes nothing; clearing twice is clearing once.
\<close>

theorem clear_makes_empty:
  "(isDefined this w \<longrightarrow> \<not> isDefined this (clear this w)) \<and>
   (\<forall>a. pIObject w this = Some a \<longrightarrow>
      heap (clear this w) a = None \<and> trace (clear this w) = trace w @ [Deleted a]) \<and>
   (\<not> isDefined this w \<longrightarrow> clear this w = w) \<and>
   clear this (clear this w) = clear this w"
  by (simp add: isDefined_iff clear_def reset_None_empty heap_reset)

theorem clear_makes_empty_witness:
  "isDefined 0 two_world \<and> \<not> isDefined 0 (clear 0 two_world) \<and>
   heap (clear 0 two_world) 0 = None \<and>
   \<not> isDefined 2 two_world \<and> clear 2 two_world = two_world \<and>
   clear 0 (clear 0 two_world) = clear 0 two_world"
  using clear_makes_empty [of 0 two_world] clear_makes_empty [of 2 two_world]
  by (simp add: isDefined_iff)


subsection \<open>C8: the states of a container\<close>

text \<open>
  C8: in every world that a program reaches from the initial one, ownership is exclusive
  (\<open>wf_world\<close>); every live container is empty or holds one live stored object, and never
  more than one; and every operation that returns leaves the state that \<open>post\<close>
  describes: a default-constructed container is empty, a container constructed from a
  value or in place, or emplaced into, holds an object of the type constructed, a
  cleared container and a container moved into another one is empty, and the target of a
  move holds what the source held. (Assigning a container to itself by move is no move
  out of it: \<^verbatim>\<open>reset(release())\<close> on one and the same member gives it back what it
  held.)
\<close>

theorem container_state_machine:
  assumes "run U xs init_world = Some w"
  shows "wf_world w \<and>
         (\<forall>c\<in>alive w. state_of c w = Some Empty \<or> (\<exists>T. state_of c w = Some (Holding T))) \<and>
         (\<forall>c\<in>alive w. card {a \<in> dom (heap w). pIObject w c = Some a} \<le> 1) \<and>
         (\<forall>x w'. exec U x w = Returned () w' \<longrightarrow> post x w w')"
proof -
  have wf: "wf_world w" using run_wf [OF wf_init_world assms] .
  have 1: "\<forall>c\<in>alive w. state_of c w = Some Empty \<or> (\<exists>T. state_of c w = Some (Holding T))"
    using wf_state_of [OF wf] by blast
  have 2: "\<forall>c\<in>alive w. card {a \<in> dom (heap w). pIObject w c = Some a} \<le> 1"
    using held_card [of "dom (heap w)"] by simp
  have 3: "\<forall>x w'. exec U x w = Returned () w' \<longrightarrow> post x w w'"
    using exec_post [OF wf, of U] by blast
  from wf 1 2 3 show ?thesis by blast
qed

theorem container_state_machine_witness:
  "\<exists>w w'. run sample [DefaultCtor 0] init_world = Some w \<and>
          exec sample (Emplace 0 (Named ''int'') [int_expr Lvalue 9]) w = Returned () w' \<and>
          wf_world w \<and> 0 \<in> alive w \<and> state_of 0 w = Some Empty \<and>
          state_of 0 w' = Some (Holding (Named ''int''))"
proof -
  let ?w = "begin_lifetime 0 (CAnyMovable_default 0 (init_world :: int world))"
  have r: "run sample [DefaultCtor 0] init_world = Some ?w"
    by (simp add: init_world_def)
  have b: "CObjectStored_ctor sample (Named ''int'') [int_expr Lvalue 9] = Built (Atom 9) [Created (Named ''int'')]"
    by (simp add: CObjectStored_ctor_def CObjectKeeper_args_def sample_ctor_def)
  have a: "0 \<in> alive ?w" by simp
  obtain w' where e: "exec sample (Emplace 0 (Named ''int'') [int_expr Lvalue 9]) ?w = Returned () w'"
    using a by (simp add: emplace_def make_unique_Built [OF b])
  have s: "state_of 0 ?w = Some Empty"
    by (simp add: CAnyMovable_default_def)
  note t = container_state_machine [OF r]
  from t have wf: "wf_world ?w" by (rule conjunct1)
  from t have "\<forall>x w'. exec sample x ?w = Returned () w' \<longrightarrow> post x ?w w'" by simp
  with e have "post (Emplace 0 (Named ''int'') [int_expr Lvalue 9] :: (int, meth) op) ?w w'"
    by blast
  then have "state_of 0 w' = Some (Holding (Named ''int''))" by simp
  with r e a s wf show ?thesis by blast
qed


subsection \<open>C9: the pointer that operator-> returns\<close>

text \<open>
  C9: both overloads of \<^verbatim>\<open>operator->\<close> return the member's pointer, which is null
  exactly when \<^verbatim>\<open>isDefined()\<close> is false. A call through the pointer of an empty
  container dereferences a null pointer, which is undefined behaviour; in a world a
  program reaches, the pointer of a defined container is the address of a live stored
  object.
\<close>

theorem operator_arrow_null_iff_empty:
  "target (operator_arrow this w) = pIObject w this \<and>
   target (operator_arrow_const this w) = pIObject w this \<and>
   (target (operator_arrow this w) = None) = (\<not> isDefined this w) \<and>
   (target (operator_arrow_const this w) = None) = (\<not> isDefined this w) \<and>
   (\<not> isDefined this w \<longrightarrow> invoke U m (operator_arrow this w) w = Undefined) \<and>
   (wf_world w \<and> this \<in> alive w \<and> isDefined this w \<longrightarrow>
      (\<exists>a k. target (operator_arrow this w) = Some a \<and> heap w a = Some k))"
proof -
  have "\<exists>a k. target (operator_arrow this w) = Some a \<and> heap w a = Some k"
    if "wf_world w" "this \<in> alive w" "isDefined this w"
  proof -
    from that(3) obtain a where a: "pIObject w this = Some a"
      by (auto simp add: isDefined_iff)
    from wf_live [OF that(1,2) a] obtain k where "heap w a = Some k" by blast
    with a show ?thesis by simp
  qed
  then show ?thesis
    by (simp add: isDefined_iff invoke_def)
qed

theorem operator_arrow_null_iff_empty_witness:
  "\<not> isDefined 2 two_world \<and> target (operator_arrow 2 two_world) = None \<and>
   invoke sample Get (operator_arrow 2 two_world) two_world = Undefined \<and>
   wf_world two_world \<and> 0 \<in> alive two_world \<and> isDefined 0 two_world \<and>
   target (operator_arrow 0 two_world) = Some 0 \<and>
   (\<exists>a k. target (operator_arrow 0 two_world) = Some a \<and> heap two_world a = Some k)"
  using operator_arrow_null_iff_empty [of 2 two_world sample Get]
    operator_arrow_null_iff_empty [of 0 two_world sample Get] wf_two_world
  by (simp add: isDefined_iff)


subsection \<open>C10: the const overload of operator->\<close>

text \<open>
  C10: the const overload of \<^verbatim>\<open>operator->\<close> returns the same pointer as the non-const
  one, and the pointee type is not const. So every interface method, const or not, can
  be called through it on a non-empty container, and the call changes the stored value
  as the method says.
\<close>

theorem const_arrow_grants_mutation:
  "operator_arrow_const this w = operator_arrow this w \<and>
   \<not> pointee_const (operator_arrow_const this w) \<and>
   (\<forall>a k. pIObject w this = Some a \<and> heap w a = Some k \<longrightarrow>
      invoke U m (operator_arrow_const this w) w =
        Returned (fst (TImplementation U (TObject k) m (Object k)))
          (w\<lparr>heap := (heap w)(a \<mapsto> k\<lparr>Object_m := snd (TImplementation U (TObject k) m (Object k))\<rparr>)\<rparr>))"
  by (auto simp add: operator_arrow_def operator_arrow_const_def intro!: invoke_live
      simp add: unique_ptr_get_def)

theorem const_arrow_grants_mutation_witness:
  "isDefined 0 two_world \<and> \<not> const_method sample Increment \<and>
   operator_arrow_const 0 two_world = operator_arrow 0 two_world \<and>
   pIObject two_world 0 = Some 0 \<and>
   heap two_world 0 = Some \<lparr>TObject = Named ''int'', Object_m = Atom 5\<rparr> \<and>
   invoke sample Increment (operator_arrow_const 0 two_world) two_world =
     Returned 6 (two_world\<lparr>heap := (heap two_world)(0 \<mapsto> \<lparr>TObject = Named ''int'', Object_m = Atom 6\<rparr>)\<rparr>)"
  using const_arrow_grants_mutation [of 0 two_world sample Increment]
  by (simp add: isDefined_iff Object_def)

end
